theory Spec2Isabelle
  imports Complex_Main "HOL-Library.Word"
begin

section \<open>Python values and exceptions\<close>

text \<open>
  A Python \<open>str\<close> is a sequence of Unicode code points, so \<open>len\<close> counts code points;
  a \<open>bytes\<close>/\<open>bytearray\<close> is a sequence of 8-bit values. A \<open>dict\<close> of strings is kept
  as an association list in insertion order, which is the order \<open>items()\<close> yields.
\<close>

type_synonym byte = "8 word"
type_synonym pystr = "nat list"
type_synonym pydict = "(pystr \<times> pystr) list"

datatype error =
    AssertionError string
  | TypeError string
  | IndexError
  | KeyError string
  | RuntimeError string
  | ParseError
  | StructError
  | UnicodeEncodeError
  | UnboundLocalError string

section \<open>The map serializer (faasmctl/util/batch.py)\<close>

text \<open>
  \<open>struct.pack('I', n)\<close>: an unsigned 32-bit integer in the byte order of the host,
  least significant byte first on the x86-64 and AArch64 hosts the tool runs on;
  \<open>struct.error\<close> when \<open>n\<close> does not fit.
\<close>

definition pack_I :: "nat \<Rightarrow> error + byte list" where
  "pack_I n =
     (if n < 2 ^ 32
      then Inr [of_nat n, of_nat (n div 256), of_nat (n div 65536), of_nat (n div 16777216)]
      else Inl StructError)"

text \<open>
  \<open>str.encode('utf-8')\<close>: one to four bytes per code point; a surrogate
  (U+D800 to U+DFFF) raises \<open>UnicodeEncodeError\<close>. Values from \<open>0x110000\<close> on are not
  code points, no \<open>str\<close> holds them, and the model rejects them the same way.
\<close>

definition utf8_char :: "nat \<Rightarrow> error + byte list" where
  "utf8_char c =
     (if c < 0x80 then Inr [of_nat c]
      else if c < 0x800 then Inr [of_nat (0xC0 + c div 64), of_nat (0x80 + c mod 64)]
      else if c < 0x10000 then
        (if 0xD800 \<le> c \<and> c < 0xE000 then Inl UnicodeEncodeError
         else Inr [of_nat (0xE0 + c div 4096), of_nat (0x80 + (c div 64) mod 64),
                   of_nat (0x80 + c mod 64)])
      else if c < 0x110000 then
        Inr [of_nat (0xF0 + c div 262144), of_nat (0x80 + (c div 4096) mod 64),
             of_nat (0x80 + (c div 64) mod 64), of_nat (0x80 + c mod 64)]
      else Inl UnicodeEncodeError)"

fun utf8_encode :: "pystr \<Rightarrow> error + byte list" where
  "utf8_encode [] = Inr []"
| "utf8_encode (c # cs) =
     (case utf8_char c of
        Inl e \<Rightarrow> Inl e
      | Inr bs \<Rightarrow> (case utf8_encode cs of Inl e \<Rightarrow> Inl e | Inr rest \<Rightarrow> Inr (bs @ rest)))"

text \<open>
  \<open>serialize_string(buffer, string)\<close> extends the buffer with
  \<open>struct.pack('I', len(string))\<close> and then with \<open>string.encode('utf-8')\<close>.
\<close>

definition serialize_string :: "byte list \<Rightarrow> pystr \<Rightarrow> error + byte list" where
  "serialize_string buffer string =
     (case pack_I (length string) of
        Inl e \<Rightarrow> Inl e
      | Inr hdr \<Rightarrow>
          (case utf8_encode string of
             Inl e \<Rightarrow> Inl e
           | Inr bs \<Rightarrow> Inr (buffer @ hdr @ bs)))"

text \<open>The loop \<open>for key, value in map_data.items()\<close> of \<open>serialize_map\<close>.\<close>

fun serialize_items :: "byte list \<Rightarrow> pydict \<Rightarrow> error + byte list" where
  "serialize_items buffer [] = Inr buffer"
| "serialize_items buffer ((key, val) # items) =
     (case serialize_string buffer key of
        Inl e \<Rightarrow> Inl e
      | Inr b1 \<Rightarrow>
          (case serialize_string b1 val of
             Inl e \<Rightarrow> Inl e
           | Inr b2 \<Rightarrow> serialize_items b2 items))"

definition serialize_map :: "pydict \<Rightarrow> error + byte list" where
  "serialize_map map_data =
     (case pack_I (length map_data) of
        Inl e \<Rightarrow> Inl e
      | Inr hdr \<Rightarrow> serialize_items hdr map_data)"

subsection \<open>The layout the specification describes\<close>

text \<open>
  The specification's encoding, written from its words: a 32-bit pair count, then per
  entry the key's length in encoded bytes, the key's bytes, the value's length in encoded
  bytes and the value's bytes.
\<close>

definition spec_string :: "pystr \<Rightarrow> error + byte list" where
  "spec_string s =
     (case utf8_encode s of
        Inl e \<Rightarrow> Inl e
      | Inr bs \<Rightarrow> (case pack_I (length bs) of Inl e \<Rightarrow> Inl e | Inr hdr \<Rightarrow> Inr (hdr @ bs)))"

fun spec_entries :: "pydict \<Rightarrow> error + byte list" where
  "spec_entries [] = Inr []"
| "spec_entries ((k, v) # m) =
     (case spec_string k of
        Inl e \<Rightarrow> Inl e
      | Inr kb \<Rightarrow>
          (case spec_string v of
             Inl e \<Rightarrow> Inl e
           | Inr vb \<Rightarrow>
               (case spec_entries m of Inl e \<Rightarrow> Inl e | Inr rest \<Rightarrow> Inr (kb @ vb @ rest))))"

definition spec_encode :: "pydict \<Rightarrow> error + byte list" where
  "spec_encode m =
     (case pack_I (length m) of
        Inl e \<Rightarrow> Inl e
      | Inr hdr \<Rightarrow> (case spec_entries m of Inl e \<Rightarrow> Inl e | Inr body \<Rightarrow> Inr (hdr @ body)))"

text \<open>The number of bytes of a string's UTF-8 encoding (0 where it has none).\<close>

definition byteLen :: "pystr \<Rightarrow> nat" where
  "byteLen s = (case utf8_encode s of Inl e \<Rightarrow> 0 | Inr bs \<Rightarrow> length bs)"

subsection \<open>The decoder\<close>

text \<open>
  Modelled from the spec: the repository has no decoder; the specification asks for the
  structural inverse of the layout above. It reads the pair count, then for every pair a
  length-prefixed key and a length-prefixed value, each length counting bytes, decodes
  the bytes as UTF-8 and accepts the input when nothing is left over. \<open>None\<close> is a
  malformed input.
\<close>

definition unpack_I :: "byte list \<Rightarrow> nat" where
  "unpack_I bs =
     (case bs of
        [b0, b1, b2, b3] \<Rightarrow> unat b0 + 256 * unat b1 + 65536 * unat b2 + 16777216 * unat b3
      | _ \<Rightarrow> 0)"

definition is_cont :: "byte \<Rightarrow> bool" where
  "is_cont b = (0x80 \<le> unat b \<and> unat b < 0xC0)"

fun utf8_decode :: "byte list \<Rightarrow> pystr option" where
  "utf8_decode [] = Some []"
| "utf8_decode (b0 # bs) =
     (if unat b0 < 0x80 then map_option ((#) (unat b0)) (utf8_decode bs)
      else if 0xC2 \<le> unat b0 \<and> unat b0 < 0xE0 then
        (case bs of
           b1 # r \<Rightarrow>
             if is_cont b1
             then map_option ((#) ((unat b0 - 0xC0) * 64 + (unat b1 - 0x80))) (utf8_decode r)
             else None
         | _ \<Rightarrow> None)
      else if 0xE0 \<le> unat b0 \<and> unat b0 < 0xF0 then
        (case bs of
           b1 # b2 # r \<Rightarrow>
             if is_cont b1 \<and> is_cont b2
                \<and> 0x800 \<le> (unat b0 - 0xE0) * 4096 + (unat b1 - 0x80) * 64 + (unat b2 - 0x80)
                \<and> \<not> (0xD800 \<le> (unat b0 - 0xE0) * 4096 + (unat b1 - 0x80) * 64 + (unat b2 - 0x80)
                      \<and> (unat b0 - 0xE0) * 4096 + (unat b1 - 0x80) * 64 + (unat b2 - 0x80) < 0xE000)
             then map_option
                    ((#) ((unat b0 - 0xE0) * 4096 + (unat b1 - 0x80) * 64 + (unat b2 - 0x80)))
                    (utf8_decode r)
             else None
         | _ \<Rightarrow> None)
      else if 0xF0 \<le> unat b0 \<and> unat b0 < 0xF5 then
        (case bs of
           b1 # b2 # b3 # r \<Rightarrow>
             if is_cont b1 \<and> is_cont b2 \<and> is_cont b3
                \<and> 0x10000 \<le> (unat b0 - 0xF0) * 262144 + (unat b1 - 0x80) * 4096
                                + (unat b2 - 0x80) * 64 + (unat b3 - 0x80)
                \<and> (unat b0 - 0xF0) * 262144 + (unat b1 - 0x80) * 4096
                     + (unat b2 - 0x80) * 64 + (unat b3 - 0x80) < 0x110000
             then map_option
                    ((#) ((unat b0 - 0xF0) * 262144 + (unat b1 - 0x80) * 4096
                          + (unat b2 - 0x80) * 64 + (unat b3 - 0x80)))
                    (utf8_decode r)
             else None
         | _ \<Rightarrow> None)
      else None)"

definition read_string :: "byte list \<Rightarrow> (pystr \<times> byte list) option" where
  "read_string bs =
     (if length bs < 4 then None
      else if length (drop 4 bs) < unpack_I (take 4 bs) then None
      else (case utf8_decode (take (unpack_I (take 4 bs)) (drop 4 bs)) of
              None \<Rightarrow> None
            | Some s \<Rightarrow> Some (s, drop (unpack_I (take 4 bs)) (drop 4 bs))))"

fun read_pairs :: "nat \<Rightarrow> byte list \<Rightarrow> (pydict \<times> byte list) option" where
  "read_pairs 0 bs = Some ([], bs)"
| "read_pairs (Suc n) bs =
     (case read_string bs of
        None \<Rightarrow> None
      | Some (k, r1) \<Rightarrow>
          (case read_string r1 of
             None \<Rightarrow> None
           | Some (v, r2) \<Rightarrow>
               (case read_pairs n r2 of
                  None \<Rightarrow> None
                | Some (m, r3) \<Rightarrow> Some ((k, v) # m, r3))))"

definition decode :: "byte list \<Rightarrow> pydict option" where
  "decode bs =
     (if length bs < 4 then None
      else (case read_pairs (unpack_I (take 4 bs)) (drop 4 bs) of
              None \<Rightarrow> None
            | Some (m, rest) \<Rightarrow> if rest = [] then Some m else None))"

section \<open>Messages, batch requests and statuses\<close>

text \<open>
  The protobuf classes \<open>Message\<close>, \<open>BatchExecuteRequest\<close> and
  \<open>BatchExecuteRequestStatus\<close> are generated code outside the source tree. The records
  carry the fields the specification's data model lists; the fields of a fresh protobuf
  object hold the proto3 defaults (0, the empty string, no bytes, no messages).
\<close>

record message =
  msg_appId :: int
  msg_user :: string
  msg_function :: string
  mpiWorldSize :: int
  groupIdx :: int
  executedHost :: string
  inputData :: "byte list"
  chainedId :: int

record ber =
  ber_appId :: int
  ber_user :: string
  ber_function :: string
  messages :: "message list"

record ber_status =
  appId :: int
  finished :: bool
  expectedNumMessages :: int

text \<open>
  The dict-shaped templates: a key may be absent. \<open>msg_dict\<close> is the message template,
  \<open>req_dict\<close> the request template.
\<close>

record msg_dict =
  md_user :: "string option"
  md_function :: "string option"
  md_mpi_world_size :: "int option"

record req_dict =
  rd_user :: "string option"
  rd_function :: "string option"

text \<open>
  \<open>ParseDict(req_dict, BatchExecuteRequest())\<close>: a fresh request with the template's
  keys set.
\<close>

definition ParseDict_ber :: "req_dict \<Rightarrow> ber" where
  "ParseDict_ber d =
     \<lparr>ber_appId = 0,
      ber_user = (case rd_user d of None \<Rightarrow> [] | Some u \<Rightarrow> u),
      ber_function = (case rd_function d of None \<Rightarrow> [] | Some f \<Rightarrow> f),
      messages = []\<rparr>"

text \<open>
  Modelled from the spec: \<open>message_factory\<close> (faasmctl/util/message.py) is not part of
  the source tree. The specification has the request builder copy the message template
  into messages bound to the batch's \<open>appId\<close>: the message takes the template's keys and
  the given identifier, every other field keeps its default.
\<close>

definition message_factory :: "msg_dict \<Rightarrow> int \<Rightarrow> message" where
  "message_factory d app_id =
     \<lparr>msg_appId = app_id,
      msg_user = (case md_user d of None \<Rightarrow> [] | Some u \<Rightarrow> u),
      msg_function = (case md_function d of None \<Rightarrow> [] | Some f \<Rightarrow> f),
      mpiWorldSize = (case md_mpi_world_size d of None \<Rightarrow> 0 | Some n \<Rightarrow> n),
      groupIdx = 0,
      executedHost = [],
      inputData = [],
      chainedId = 0\<rparr>"

section \<open>The request builder (faasmctl/util/batch.py)\<close>

text \<open>
  The loop \<open>req.messages.append(message_factory(msg_dict, req.appId))\<close>, run a given
  number of times: \<open>range(n)\<close> is empty for a negative \<open>n\<close>, so the callers pass
  \<open>nat n\<close>.
\<close>

primrec append_messages :: "nat \<Rightarrow> msg_dict \<Rightarrow> ber \<Rightarrow> ber" where
  "append_messages 0 d req = req"
| "append_messages (Suc n) d req =
     append_messages n d (req\<lparr>messages := messages req @ [message_factory d (ber_appId req)]\<rparr>)"

text \<open>
  \<open>batch_exec_factory(req_dict, msg_dict, num_messages)\<close>. The identifier generator
  \<open>generate_gid\<close> (faasmctl/util/random.py) is outside the source tree; \<open>gid\<close> is the
  value it returns in this call.
\<close>

definition batch_exec_factory :: "int \<Rightarrow> req_dict \<Rightarrow> msg_dict \<Rightarrow> int \<Rightarrow> ber" where
  "batch_exec_factory gid rd md num_messages =
     append_messages (nat num_messages) md ((ParseDict_ber rd)\<lparr>ber_appId := gid\<rparr>)"

text \<open>
  \<open>req.messages[i].field = v\<close>: an index past the end of the list raises \<open>IndexError\<close>.
\<close>

definition set_message :: "nat \<Rightarrow> (message \<Rightarrow> message) \<Rightarrow> ber \<Rightarrow> error + ber" where
  "set_message i f req =
     (if i < length (messages req)
      then Inr (req\<lparr>messages := (messages req)[i := f (messages req ! i)]\<rparr>)
      else Inl IndexError)"

text \<open>
  The loop \<open>for i in range(num_messages)\<close> of \<open>batch_exec_input_factory\<close>. The input
  is attached under \<open>if input_list is not None\<close>; the assignment of \<open>chainedId\<close> reads
  \<open>chained_id_list[i]\<close> without such a test, and subscripting \<open>None\<close> raises
  \<open>TypeError\<close>.
\<close>

fun input_loop ::
  "msg_dict \<Rightarrow> pydict list option \<Rightarrow> int list option \<Rightarrow> nat list \<Rightarrow> ber \<Rightarrow> error + ber"
where
  "input_loop md input_list chained_id_list [] req = Inr req"
| "input_loop md input_list chained_id_list (i # idxs) req =
     (case (case input_list of
              None \<Rightarrow> Inr (req\<lparr>messages := messages req @ [message_factory md (ber_appId req)]\<rparr>)
            | Some inputs \<Rightarrow>
                if i < length inputs
                then (case serialize_map (inputs ! i) of
                        Inl e \<Rightarrow> Inl e
                      | Inr serialized_input \<Rightarrow>
                          set_message i (\<lambda>m. m\<lparr>inputData := serialized_input\<rparr>)
                            (req\<lparr>messages :=
                                   messages req @ [message_factory md (ber_appId req)]\<rparr>))
                else Inl IndexError) of
        Inl e \<Rightarrow> Inl e
      | Inr req1 \<Rightarrow>
          (case chained_id_list of
             None \<Rightarrow> Inl (TypeError ''NoneType object is not subscriptable'')
           | Some ids \<Rightarrow>
               if i < length ids
               then (case set_message i (\<lambda>m. m\<lparr>chainedId := ids ! i\<rparr>) req1 of
                       Inl e \<Rightarrow> Inl e
                     | Inr req2 \<Rightarrow> input_loop md input_list chained_id_list idxs req2)
               else Inl IndexError))"

definition batch_exec_input_factory ::
  "req_dict \<Rightarrow> int \<Rightarrow> msg_dict \<Rightarrow> int \<Rightarrow> pydict list option \<Rightarrow> int list option \<Rightarrow> error + ber"
where
  "batch_exec_input_factory rd app_id md num_messages input_list chained_id_list =
     (if (case input_list of None \<Rightarrow> False | Some inputs \<Rightarrow> int (length inputs) \<noteq> num_messages)
      then Inl (AssertionError ''Number of input data should match number of messages'')
      else if (case chained_id_list of
                 None \<Rightarrow> False
               | Some ids \<Rightarrow> int (length ids) \<noteq> num_messages)
      then Inl (AssertionError ''Number of chainedIds should match number of messages'')
      else input_loop md input_list chained_id_list [0..<nat num_messages]
             ((ParseDict_ber rd)\<lparr>ber_appId := app_id\<rparr>))"

section \<open>The coordinator endpoint and the effects of a call\<close>

text \<open>
  \<open>prepare_planner_msg(op, MessageToJson(x))\<close> binds an operation name to a serialized
  payload (faasmctl/util/planner.py is outside the source tree). The envelope is kept as
  the operation applied to the payload it serializes.
\<close>

datatype planner_msg =
    EXECUTE_BATCH ber
  | EXECUTE_BATCH_STATUS ber_status
  | PRELOAD_SCHEDULING_DECISION ber

text \<open>
  A response has a status code and a text. The text is either the JSON of a status,
  kept as the status \<open>Parse\<close> reads from it, or some other text, on which \<open>Parse\<close>
  raises.
\<close>

datatype body = Plain string | Json ber_status

record response =
  status_code :: int
  resp_text :: body

definition Parse :: "body \<Rightarrow> error + ber_status" where
  "Parse b = (case b of Plain s \<Rightarrow> Inl ParseError | Json st \<Rightarrow> Inr st)"

text \<open>
  What a call does to the outside: the POSTs it sends, the time it sleeps (in seconds)
  and the lines it prints, in order.
\<close>

datatype event =
    Post string planner_msg
  | Sleep rat
  | Print_retrying nat nat
  | Print_post_failed int body
  | Print_preload_error int body

record world =
  sent :: nat
  trace :: "event list"

text \<open>
  The endpoint answers the \<open>n\<close>-th POST it receives (counted from 0) as a function of
  \<open>n\<close> and of the envelope. Every POST is answered: a connection that fails inside
  \<open>requests.post\<close> is outside the model.
\<close>

type_synonym endpoint = "nat \<Rightarrow> planner_msg \<Rightarrow> response"

definition post :: "endpoint \<Rightarrow> string \<Rightarrow> planner_msg \<Rightarrow> world \<Rightarrow> response \<times> world" where
  "post env url data w =
     (env (sent w) data, w\<lparr>sent := Suc (sent w), trace := trace w @ [Post url data]\<rparr>)"

definition sleep :: "rat \<Rightarrow> world \<Rightarrow> world" where
  "sleep secs w = w\<lparr>trace := trace w @ [Sleep secs]\<rparr>"

definition print_line :: "event \<Rightarrow> world \<Rightarrow> world" where
  "print_line e w = w\<lparr>trace := trace w @ [e]\<rparr>"

section \<open>Submission and polling (faasmctl/util/invoke.py)\<close>

subsection \<open>Phase 1: admission\<close>

text \<open>
  The loop \<open>for i in range(num_retries)\<close> of \<open>invoke_and_await\<close> and of
  \<open>invoke_without_wait\<close>. The fourth argument is \<open>num_retries\<close>, the fifth the number
  of iterations left, so that \<open>i + 1 = num_retries - r\<close> when \<open>Suc r\<close> are left; the
  sixth is the variable \<open>response\<close>, unbound before the first POST.
\<close>

definition no_available_hosts :: "response \<Rightarrow> bool" where
  "no_available_hosts r = (status_code r = 500 \<and> resp_text r = Plain ''No available hosts'')"

primrec admission ::
  "endpoint \<Rightarrow> string \<Rightarrow> planner_msg \<Rightarrow> nat \<Rightarrow> nat \<Rightarrow> response option \<Rightarrow> world
     \<Rightarrow> response option \<times> world"
where
  "admission env url json_msg num_retries 0 resp w = (resp, w)"
| "admission env url json_msg num_retries (Suc r) resp w =
     (case post env url json_msg w of
        (response, w1) \<Rightarrow>
          if no_available_hosts response
          then admission env url json_msg num_retries r (Some response)
                 (sleep (1 / 2) (print_line (Print_retrying (num_retries - r) num_retries) w1))
          else (Some response, w1))"

definition await_num_retries :: nat where
  "await_num_retries = 10"

definition without_wait_num_retries :: nat where
  "without_wait_num_retries = 100"

subsection \<open>Phase 2: completion polling\<close>

text \<open>
  The loop \<open>while True\<close> of \<open>invoke_and_await\<close>, with \<open>poll_period = 2\<close>. It has no
  bound: where it never leaves, the value is \<open>None\<close>.
\<close>

partial_function (option) poll_loop ::
  "endpoint \<Rightarrow> string \<Rightarrow> planner_msg \<Rightarrow> ber_status \<Rightarrow> world \<Rightarrow> ((error + ber_status) \<times> world) option"
where
  "poll_loop env url json_msg st w =
     (case post env url json_msg (sleep 2 w) of
        (response, w1) \<Rightarrow>
          if status_code response \<noteq> 200 then
            (if resp_text response = Plain ''App not registered in results''
             then poll_loop env url json_msg st w1
             else Some (Inr st,
                        print_line (Print_post_failed (status_code response) (resp_text response)) w1))
          else
            (case Parse (resp_text response) of
               Inl e \<Rightarrow> Some (Inl e, w1)
             | Inr st1 \<Rightarrow>
                 if finished st1 then Some (Inr st1, w1)
                 else poll_loop env url json_msg st1 w1))"

definition invoke_and_await ::
  "endpoint \<Rightarrow> string \<Rightarrow> planner_msg \<Rightarrow> int \<Rightarrow> world \<Rightarrow> ((error + ber_status) \<times> world) option"
where
  "invoke_and_await env url json_msg expected_num_messages w =
     (case admission env url json_msg await_num_retries await_num_retries None w of
        (None, w1) \<Rightarrow> Some (Inl (UnboundLocalError ''response''), w1)
      | (Some response, w1) \<Rightarrow>
          (case Parse (resp_text response) of
             Inl e \<Rightarrow>
               Some (Inl e,
                     if status_code response \<noteq> 200
                     then print_line
                            (Print_post_failed (status_code response) (resp_text response)) w1
                     else w1)
           | Inr st \<Rightarrow>
               poll_loop env url
                 (EXECUTE_BATCH_STATUS (st\<lparr>expectedNumMessages := expected_num_messages\<rparr>))
                 (st\<lparr>expectedNumMessages := expected_num_messages\<rparr>)
                 (if status_code response \<noteq> 200
                  then print_line
                         (Print_post_failed (status_code response) (resp_text response)) w1
                  else w1)))"

text \<open>
  \<open>query_result(app_id, url)\<close>, with \<open>poll_period = 0.5\<close>. The envelope is rebuilt in
  every iteration from \<open>{"appId": app_id}\<close>. The variable \<open>ber_status\<close> is assigned only
  where a response with code 200 is parsed; \<open>return ber_status\<close> on an unbound variable
  raises \<open>UnboundLocalError\<close>. The URL is the one the caller passes or the one the
  configuration gives, which is outside the source tree.
\<close>

definition status_request :: "int \<Rightarrow> ber_status" where
  "status_request app_id = \<lparr>appId = app_id, finished = False, expectedNumMessages = 0\<rparr>"

partial_function (option) query_loop ::
  "endpoint \<Rightarrow> string \<Rightarrow> int \<Rightarrow> ber_status option \<Rightarrow> world
     \<Rightarrow> ((error + ber_status option) \<times> world) option"
where
  "query_loop env url app_id st w =
     (case post env url (EXECUTE_BATCH_STATUS (status_request app_id)) (sleep (1 / 2) w) of
        (response, w1) \<Rightarrow>
          if status_code response \<noteq> 200 then
            (if resp_text response = Plain ''App not registered in results''
             then query_loop env url app_id st w1
             else Some (Inr st,
                        print_line
                          (Print_post_failed (status_code response) (resp_text response)) w1))
          else
            (case Parse (resp_text response) of
               Inl e \<Rightarrow> Some (Inl e, w1)
             | Inr st1 \<Rightarrow>
                 if finished st1 then Some (Inr (Some st1), w1)
                 else query_loop env url app_id (Some st1) w1))"

definition query_result ::
  "endpoint \<Rightarrow> string \<Rightarrow> int \<Rightarrow> world \<Rightarrow> ((error + ber_status) \<times> world) option"
where
  "query_result env url app_id w =
     (case query_loop env url app_id None w of
        None \<Rightarrow> None
      | Some (Inl e, w1) \<Rightarrow> Some (Inl e, w1)
      | Some (Inr None, w1) \<Rightarrow> Some (Inl (UnboundLocalError ''ber_status''), w1)
      | Some (Inr (Some st), w1) \<Rightarrow> Some (Inr st, w1))"

subsection \<open>The entry points\<close>

text \<open>
  The default request template \<open>{"user": msg_dict["user"], "function": msg_dict["function"]}\<close>:
  a missing key raises \<open>KeyError\<close>.
\<close>

definition default_req_dict :: "msg_dict \<Rightarrow> error + req_dict" where
  "default_req_dict md =
     (case md_user md of
        None \<Rightarrow> Inl (KeyError ''user'')
      | Some u \<Rightarrow>
          (case md_function md of
             None \<Rightarrow> Inl (KeyError ''function'')
           | Some f \<Rightarrow> Inr \<lparr>rd_user = Some u, rd_function = Some f\<rparr>))"

definition resolve_req_dict :: "req_dict option \<Rightarrow> msg_dict \<Rightarrow> error + req_dict" where
  "resolve_req_dict req_dict md =
     (case req_dict of None \<Rightarrow> default_req_dict md | Some rd \<Rightarrow> Inr rd)"

definition expected_num_messages :: "msg_dict \<Rightarrow> int \<Rightarrow> int" where
  "expected_num_messages md num_messages =
     (case md_mpi_world_size md of None \<Rightarrow> num_messages | Some n \<Rightarrow> n)"

text \<open>
  The loop \<open>for group_idx in range(len(req.messages))\<close> of \<open>invoke_wasm\<close>;
  \<open>host_list[group_idx]\<close> raises \<open>IndexError\<close> past the end of the host list. The
  statement \<open>group_idx += 1\<close> at the end of the body has no effect on the next
  iteration.
\<close>

fun assign_hosts :: "string list \<Rightarrow> nat list \<Rightarrow> ber \<Rightarrow> error + ber" where
  "assign_hosts host_list [] req = Inr req"
| "assign_hosts host_list (group_idx # idxs) req =
     (case set_message group_idx (\<lambda>m. m\<lparr>groupIdx := int group_idx\<rparr>) req of
        Inl e \<Rightarrow> Inl e
      | Inr req1 \<Rightarrow>
          if group_idx < length host_list
          then (case set_message group_idx
                       (\<lambda>m. m\<lparr>executedHost := host_list ! group_idx\<rparr>) req1 of
                  Inl e \<Rightarrow> Inl e
                | Inr req2 \<Rightarrow> assign_hosts host_list idxs req2)
          else Inl IndexError)"

text \<open>
  The request of the placement preload, lines 65 to 75 of \<open>invoke_wasm\<close>: the
  assertion on the host list, the padding loop
  \<open>for _ in range(len(req.messages), expected_num_messages)\<close> and the assignment loop.
\<close>

definition preload_request :: "msg_dict \<Rightarrow> ber \<Rightarrow> int \<Rightarrow> string list \<Rightarrow> error + ber" where
  "preload_request md req expected host_list =
     (if int (length host_list) \<noteq> expected then Inl (AssertionError [])
      else assign_hosts host_list
             [0..<length (messages
                (append_messages (nat (expected - int (length (messages req)))) md req))]
             (append_messages (nat (expected - int (length (messages req)))) md req))"

text \<open>
  The result of \<open>invoke_wasm\<close>: the status object, or its dictionary when \<open>dict_out\<close>
  is set.
\<close>

datatype result = Message_out ber_status | Dict_out ber_status

definition deliver ::
  "bool \<Rightarrow> ((error + ber_status) \<times> world) option \<Rightarrow> ((error + result) \<times> world) option"
where
  "deliver dict_out r =
     (case r of
        None \<Rightarrow> None
      | Some (Inl e, w) \<Rightarrow> Some (Inl e, w)
      | Some (Inr st, w) \<Rightarrow> Some (Inr (if dict_out then Dict_out st else Message_out st), w))"

text \<open>
  \<open>invoke_wasm\<close>. The envelope \<open>msg\<close> of the submission is built from the request
  before the preload changes it. The URL comes from the configuration, which is outside
  the source tree, and is an argument here.
\<close>

definition invoke_wasm ::
  "endpoint \<Rightarrow> int \<Rightarrow> string \<Rightarrow> msg_dict \<Rightarrow> int \<Rightarrow> req_dict option \<Rightarrow> bool \<Rightarrow> string list option
     \<Rightarrow> world \<Rightarrow> ((error + result) \<times> world) option"
where
  "invoke_wasm env gid url md num_messages req_dict dict_out host_list w =
     (case resolve_req_dict req_dict md of
        Inl e \<Rightarrow> Some (Inl e, w)
      | Inr rd \<Rightarrow>
          (case host_list of
             None \<Rightarrow>
               deliver dict_out
                 (invoke_and_await env url
                    (EXECUTE_BATCH (batch_exec_factory gid rd md num_messages))
                    (expected_num_messages md num_messages) w)
           | Some hosts \<Rightarrow>
               (case preload_request md (batch_exec_factory gid rd md num_messages)
                       (expected_num_messages md num_messages) hosts of
                  Inl e \<Rightarrow> Some (Inl e, w)
                | Inr preq \<Rightarrow>
                    (case post env url (PRELOAD_SCHEDULING_DECISION preq) w of
                       (response, w1) \<Rightarrow>
                         if status_code response \<noteq> 200
                         then Some (Inl (RuntimeError ''Error preloading scheduling decision!''),
                                    print_line
                                      (Print_preload_error (status_code response)
                                         (resp_text response)) w1)
                         else deliver dict_out
                                (invoke_and_await env url
                                   (EXECUTE_BATCH (batch_exec_factory gid rd md num_messages))
                                   (expected_num_messages md num_messages) w1)))))"

text \<open>\<open>invoke_without_wait(url, json_msg)\<close>: phase 1 alone, with 100 attempts.\<close>

definition invoke_without_wait ::
  "endpoint \<Rightarrow> string \<Rightarrow> planner_msg \<Rightarrow> world \<Rightarrow> (error + unit) \<times> world"
where
  "invoke_without_wait env url json_msg w =
     (case admission env url json_msg without_wait_num_retries without_wait_num_retries None w of
        (None, w1) \<Rightarrow> (Inl (UnboundLocalError ''response''), w1)
      | (Some response, w1) \<Rightarrow>
          (Inr (),
           if status_code response \<noteq> 200
           then print_line (Print_post_failed (status_code response) (resp_text response)) w1
           else w1))"

text \<open>
  \<open>invoke_wasm_without_wait\<close>: the call of \<open>batch_exec_input_factory\<close> passes
  \<open>input_list\<close> and no \<open>chained_id_list\<close>, which is then \<open>None\<close>.
\<close>

definition invoke_wasm_without_wait ::
  "endpoint \<Rightarrow> string \<Rightarrow> int \<Rightarrow> msg_dict \<Rightarrow> int \<Rightarrow> req_dict option \<Rightarrow> pydict list option \<Rightarrow> world
     \<Rightarrow> (error + int) \<times> world"
where
  "invoke_wasm_without_wait env url app_id md num_messages req_dict input_list w =
     (case resolve_req_dict req_dict md of
        Inl e \<Rightarrow> (Inl e, w)
      | Inr rd \<Rightarrow>
          (case batch_exec_input_factory rd app_id md num_messages input_list None of
             Inl e \<Rightarrow> (Inl e, w)
           | Inr req \<Rightarrow>
               (case invoke_without_wait env url (EXECUTE_BATCH req) w of
                  (Inl e, w1) \<Rightarrow> (Inl e, w1)
                | (Inr u, w1) \<Rightarrow> (Inr (ber_appId req), w1))))"

section \<open>Scenarios\<close>

text \<open>
  The events of an admission that is refused \<open>k\<close> times and then answered: per refusal
  the POST, the printed retry line and the sleep of half a second, then the last POST.
\<close>

definition retry_trace :: "string \<Rightarrow> planner_msg \<Rightarrow> nat \<Rightarrow> nat \<Rightarrow> event list" where
  "retry_trace url m num_retries k =
     concat (map (\<lambda>j. [Post url m, Print_retrying (Suc j) num_retries, Sleep (1 / 2)]) [0..<k])
     @ [Post url m]"

text \<open>An endpoint that answers every POST with a server error.\<close>

definition failing_endpoint :: endpoint where
  "failing_endpoint n m = \<lparr>status_code = 500, resp_text = Plain ''Internal Server Error''\<rparr>"

text \<open>
  A fake endpoint that answers the POSTs it receives from a script, in order, and with
  a server error once the script is used up.
\<close>

definition scripted :: "response list \<Rightarrow> endpoint" where
  "scripted rs n m =
     (if n < length rs then rs ! n
      else \<lparr>status_code = 500, resp_text = Plain ''Internal Server Error''\<rparr>)"

definition busy :: response where
  "busy = \<lparr>status_code = 500, resp_text = Plain ''No available hosts''\<rparr>"


definition ok :: "bool \<Rightarrow> int \<Rightarrow> response" where
  "ok fin n = \<lparr>status_code = 200,
               resp_text = Json \<lparr>appId = 42, finished = fin, expectedNumMessages = n\<rparr>\<rparr>"

definition polled_twice :: endpoint where
  "polled_twice = scripted [ok False 0, ok False 0, ok True 7]"

definition busy_then_polled_twice :: endpoint where
  "busy_then_polled_twice = scripted [busy, ok False 0, ok False 3, ok True 3]"



text \<open>The template, the URL and the initial state of the scenarios.\<close>

definition alice_work :: msg_dict where
  "alice_work = \<lparr>md_user = Some ''alice'', md_function = Some ''work'', md_mpi_world_size = None\<rparr>"

definition alice_req :: req_dict where
  "alice_req = \<lparr>rd_user = Some ''alice'', rd_function = Some ''work''\<rparr>"

definition planner_url :: string where
  "planner_url = ''http://planner:8080''"

definition start :: world where
  "start = \<lparr>sent = 0, trace = []\<rparr>"

text \<open>
  The placement preload the specification describes: message \<open>i\<close> is a copy of the
  template bound to the batch, with \<open>groupIdx = i\<close> and \<open>executedHost = hostList[i]\<close>,
  one message per host.
\<close>

definition pin :: "string list \<Rightarrow> nat \<Rightarrow> message \<Rightarrow> message" where
  "pin hosts i m = m\<lparr>groupIdx := int i, executedHost := hosts ! i\<rparr>"

definition pinned :: "int \<Rightarrow> req_dict \<Rightarrow> msg_dict \<Rightarrow> string list \<Rightarrow> ber" where
  "pinned gid rd md hosts =
     (ParseDict_ber rd)
       \<lparr>ber_appId := gid,
        messages := map (\<lambda>i. pin hosts i (message_factory md gid)) [0..<length hosts]\<rparr>"

definition mpi_job :: msg_dict where
  "mpi_job = \<lparr>md_user = Some ''alice'', md_function = Some ''work'', md_mpi_world_size = Some 2\<rparr>"

definition two_hosts :: "string list" where
  "two_hosts = [''10.0.0.1'', ''10.0.0.2'']"

definition preload_accepted :: endpoint where
  "preload_accepted = scripted [\<lparr>status_code = 200, resp_text = Plain []\<rparr>, ok True 2]"

definition preload_then_polled_twice :: endpoint where
  "preload_then_polled_twice =
     scripted [\<lparr>status_code = 200, resp_text = Plain []\<rparr>, ok False 0, ok False 2, ok True 2]"

section \<open>Admission: the retry loop\<close>

lemma world_update:
  "(w :: world)\<lparr>sent := a, trace := b\<rparr> = \<lparr>sent = a, trace = b\<rparr>"
  by simp

text \<open>
  An admission that is refused \<open>k\<close> times, with \<open>k\<close> below the number of iterations
  left, and then answered with anything else: \<open>k + 1\<close> POSTs, a retry line and a sleep
  after each refusal, and the last response is the loop's result.
\<close>

lemma admission_general:
  assumes "\<forall>j<k. no_available_hosts (env (sent w + j) m)"
      and "\<not> no_available_hosts (env (sent w + k) m)"
      and "k < r"
  shows "admission env url m N r resp w =
           (Some (env (sent w + k) m),
            \<lparr>sent = sent w + Suc k,
             trace = trace w
               @ concat (map (\<lambda>j. [Post url m, Print_retrying (N - (r - Suc j)) N, Sleep (1 / 2)])
                          [0..<k])
               @ [Post url m]\<rparr>)"
  using assms
proof (induction k arbitrary: r resp w)
  case 0
  then obtain r' where r: "r = Suc r'" by (cases r) auto
  from 0 show ?case by (simp add: r post_def)
next
  case (Suc k)
  then obtain r' where r: "r = Suc r'" by (cases r) auto
  let ?w1 = "sleep (1 / 2) (print_line (Print_retrying (N - r') N) (snd (post env url m w)))"
  have s: "sent ?w1 = Suc (sent w)"
    and t: "trace ?w1 = trace w @ [Post url m, Print_retrying (N - r') N, Sleep (1 / 2)]"
    by (simp_all add: sleep_def print_line_def post_def)
  have first: "no_available_hosts (env (sent w) m)"
    using Suc.prems(1) by (metis add.right_neutral zero_less_Suc)
  have hyp1: "\<forall>j<k. no_available_hosts (env (sent ?w1 + j) m)"
  proof (intro allI impI)
    fix j assume "j < k"
    then have "Suc j < Suc k" by simp
    with Suc.prems(1) have "no_available_hosts (env (sent w + Suc j) m)" by blast
    then show "no_available_hosts (env (sent ?w1 + j) m)" by (simp add: s)
  qed
  have hyp2: "\<not> no_available_hosts (env (sent ?w1 + k) m)"
    using Suc.prems(2) by (simp add: s)
  have hyp3: "k < r'" using Suc.prems(3) r by simp
  have step: "admission env url m N r resp w = admission env url m N r' (Some (env (sent w) m)) ?w1"
    using first by (simp add: r post_def)
  show ?case
    unfolding step Suc.IH [OF hyp1 hyp2 hyp3]
    by (simp add: s t r map_upt_Suc del: upt_Suc)
qed

lemma retry_numbers:
  assumes "k < N"
  shows "map (\<lambda>j. [Post url m, Print_retrying (N - (N - Suc j)) N, Sleep (1 / 2)]) [0..<k]
       = map (\<lambda>j. [Post url m, Print_retrying (Suc j) N, Sleep (1 / 2)]) [0..<k]"
  using assms by (intro map_cong) auto

lemma admission_retries:
  assumes "\<forall>j<k. no_available_hosts (env (sent w + j) m)"
      and "\<not> no_available_hosts (env (sent w + k) m)"
      and "k < N"
  shows "admission env url m N N None w =
           (Some (env (sent w + k) m),
            \<lparr>sent = sent w + Suc k, trace = trace w @ retry_trace url m N k\<rparr>)"
  unfolding admission_general [where r = N and N = N and resp = None and env = env and k = k and w = w and m = m, OF assms] retry_trace_def retry_numbers [OF assms(3)] by simp




lemma admission_accepted:
  assumes "\<forall>j<k. env (sent w + j) m = \<lparr>status_code = 500, resp_text = Plain ''No available hosts''\<rparr>"
      and "env (sent w + k) m = \<lparr>status_code = 200, resp_text = Json st\<rparr>"
      and "k < N"
  shows "admission env url m N N None w =
           (Some \<lparr>status_code = 200, resp_text = Json st\<rparr>,
            \<lparr>sent = sent w + Suc k, trace = trace w @ retry_trace url m N k\<rparr>)"
proof -
  have a: "\<forall>j<k. no_available_hosts (env (sent w + j) m)"
    using assms(1) by (simp add: no_available_hosts_def)
  have b: "\<not> no_available_hosts (env (sent w + k) m)"
    using assms(2) by (simp add: no_available_hosts_def)
  show ?thesis using admission_retries [where env = env and w = w and m = m and k = k, OF a b assms(3)] assms(2) by simp
qed

lemma invoke_and_await_accepted:
  assumes "\<forall>j<k. env (sent w + j) m = \<lparr>status_code = 500, resp_text = Plain ''No available hosts''\<rparr>"
      and "env (sent w + k) m = \<lparr>status_code = 200, resp_text = Json st\<rparr>"
      and "k < 10"
  shows "invoke_and_await env url m n w =
           poll_loop env url (EXECUTE_BATCH_STATUS (st\<lparr>expectedNumMessages := n\<rparr>))
             (st\<lparr>expectedNumMessages := n\<rparr>)
             \<lparr>sent = sent w + Suc k, trace = trace w @ retry_trace url m 10 k\<rparr>"
  using admission_accepted [where env = env and w = w and m = m and k = k and N = 10 and url = url, OF assms(1,2)] assms(3)
  by (simp add: invoke_and_await_def await_num_retries_def Parse_def)


text \<open>
  An admission that is refused in every iteration left: the loop ends with the last
  refusal as its response. In \<open>invoke_and_await\<close> the ten refusals are followed by
  the printed failure and by \<open>Parse\<close> raising on the text of the refusal.
\<close>

lemma admission_exhausted:
  assumes "\<forall>j<Suc r. no_available_hosts (env (sent w + j) m)"
  shows "admission env url m N (Suc r) resp w =
           (Some (env (sent w + r) m),
            \<lparr>sent = sent w + Suc r,
             trace = trace w
               @ concat (map (\<lambda>j. [Post url m, Print_retrying (N - (r - j)) N, Sleep (1 / 2)])
                          [0..<Suc r])\<rparr>)"
  using assms
proof (induction r arbitrary: resp w)
  case 0
  then show ?case by (simp add: post_def sleep_def print_line_def world_update)
next
  case (Suc r)
  let ?w1 = "sleep (1 / 2) (print_line (Print_retrying (N - Suc r) N) (snd (post env url m w)))"
  have s: "sent ?w1 = Suc (sent w)"
    and t: "trace ?w1 = trace w @ [Post url m, Print_retrying (N - Suc r) N, Sleep (1 / 2)]"
    by (simp_all add: sleep_def print_line_def post_def)
  have first: "no_available_hosts (env (sent w) m)"
    using Suc.prems by (metis add.right_neutral zero_less_Suc)
  have hyp: "\<forall>j<Suc r. no_available_hosts (env (sent ?w1 + j) m)"
  proof (intro allI impI)
    fix j assume "j < Suc r"
    then have "Suc j < Suc (Suc r)" by simp
    with Suc.prems have "no_available_hosts (env (sent w + Suc j) m)" by blast
    then show "no_available_hosts (env (sent ?w1 + j) m)" by (simp add: s)
  qed
  have step: "admission env url m N (Suc (Suc r)) resp w
                = admission env url m N (Suc r) (Some (env (sent w) m)) ?w1"
    using first by (simp add: post_def)
  show ?case
    unfolding step Suc.IH [OF hyp]
    by (simp add: s t map_upt_Suc [of _ "Suc r"] del: upt_Suc)
qed

lemma invoke_and_await_exhausted:
  assumes "\<forall>j<10. env (sent w + j) m = \<lparr>status_code = 500, resp_text = Plain ''No available hosts''\<rparr>"
  shows "invoke_and_await env url m n w =
           Some (Inl ParseError,
                 \<lparr>sent = sent w + 10,
                  trace = trace w
                    @ concat (map (\<lambda>j. [Post url m, Print_retrying (Suc j) 10, Sleep (1 / 2)])
                               [0..<10])
                    @ [Print_post_failed 500 (Plain ''No available hosts'')]\<rparr>)"
proof -
  have a: "\<forall>j<Suc 9. no_available_hosts (env (sent w + j) m)"
    using assms by (simp add: no_available_hosts_def)
  have last: "env (sent w + 9) m = \<lparr>status_code = 500, resp_text = Plain ''No available hosts''\<rparr>"
    using assms by simp
  have n: "map (\<lambda>j. [Post url m, Print_retrying (10 - (9 - j)) 10, Sleep (1 / 2)]) [0..<Suc 9]
         = map (\<lambda>j. [Post url m, Print_retrying (Suc j) 10, Sleep (1 / 2)]) [0..<10]"
    by (intro map_cong) auto
  have "admission env url m 10 10 None w =
           (Some \<lparr>status_code = 500, resp_text = Plain ''No available hosts''\<rparr>,
            \<lparr>sent = sent w + 10,
             trace = trace w
               @ concat (map (\<lambda>j. [Post url m, Print_retrying (Suc j) 10, Sleep (1 / 2)])
                          [0..<10])\<rparr>)"
    using admission_exhausted [where env = env and w = w and m = m and r = 9 and N = 10
        and url = url and resp = None, OF a]
    unfolding n last by simp
  then show ?thesis
    by (simp add: invoke_and_await_def await_num_retries_def Parse_def print_line_def world_update)
qed

section \<open>Polling: one iteration of the loop\<close>

lemma poll_step_unfinished:
  assumes "env (sent w) q = \<lparr>status_code = 200, resp_text = Json s1\<rparr>" and "\<not> finished s1"
  shows "poll_loop env url q st w =
           poll_loop env url q s1 \<lparr>sent = Suc (sent w), trace = trace w @ [Sleep 2, Post url q]\<rparr>"
  using assms
  by (subst poll_loop.simps) (simp add: post_def sleep_def Parse_def world_update)

lemma poll_step_finished:
  assumes "env (sent w) q = \<lparr>status_code = 200, resp_text = Json s2\<rparr>" and "finished s2"
  shows "poll_loop env url q st w =
           Some (Inr s2, \<lparr>sent = Suc (sent w), trace = trace w @ [Sleep 2, Post url q]\<rparr>)"
  using assms
  by (subst poll_loop.simps) (simp add: post_def sleep_def Parse_def world_update)


lemma poll_step_error:
  assumes "status_code (env (sent w) q) \<noteq> 200"
      and "resp_text (env (sent w) q) \<noteq> Plain ''App not registered in results''"
  shows "poll_loop env url q st w =
           Some (Inr st, \<lparr>sent = Suc (sent w), trace = trace w @ [Sleep 2, Post url q,
              Print_post_failed (status_code (env (sent w) q)) (resp_text (env (sent w) q))]\<rparr>)"
  using assms
  by (subst poll_loop.simps) (simp add: post_def sleep_def print_line_def world_update)

lemma await_two_polls:
  assumes "\<forall>j<k. env (sent w + j) m = \<lparr>status_code = 500, resp_text = Plain ''No available hosts''\<rparr>"
      and "env (sent w + k) m = \<lparr>status_code = 200, resp_text = Json s0\<rparr>"
      and "k < 10"
      and "q = EXECUTE_BATCH_STATUS (s0\<lparr>expectedNumMessages := n\<rparr>)"
      and "env (sent w + k + 1) q = \<lparr>status_code = 200, resp_text = Json s1\<rparr>"
      and "\<not> finished s1"
      and "env (sent w + k + 2) q = \<lparr>status_code = 200, resp_text = Json s2\<rparr>"
      and "finished s2"
  shows "invoke_and_await env url m n w =
           Some (Inr s2,
                 \<lparr>sent = sent w + k + 3,
                  trace = trace w @ retry_trace url m 10 k
                            @ [Sleep 2, Post url q, Sleep 2, Post url q]\<rparr>)"
proof -
  let ?w1 = "\<lparr>sent = sent w + Suc k, trace = trace w @ retry_trace url m 10 k\<rparr>"
  let ?w2 = "\<lparr>sent = Suc (sent ?w1), trace = trace ?w1 @ [Sleep 2, Post url q]\<rparr>"
  have p1: "env (sent ?w1) q = \<lparr>status_code = 200, resp_text = Json s1\<rparr>"
    using assms(5) by simp
  have p2: "env (sent ?w2) q = \<lparr>status_code = 200, resp_text = Json s2\<rparr>"
    using assms(7) by (simp add: numeral_2_eq_2)
  have "invoke_and_await env url m n w = poll_loop env url q (s0\<lparr>expectedNumMessages := n\<rparr>) ?w1"
    using invoke_and_await_accepted [where env = env and w = w and m = m and k = k, OF assms(1,2,3)] assms(4) by simp
  also have "\<dots> = poll_loop env url q s1 ?w2"
    by (rule poll_step_unfinished [where env = env and w = "?w1" and q = q, OF p1 assms(6)])
  also have "\<dots> = Some (Inr s2, \<lparr>sent = Suc (sent ?w2), trace = trace ?w2 @ [Sleep 2, Post url q]\<rparr>)"
    by (rule poll_step_finished [where env = env and w = "?w2" and q = q, OF p2 assms(8)])
  finally show ?thesis by (simp add: numeral_3_eq_3)
qed

lemma deliver_Some:
  "deliver d (Some (Inr st, w)) = Some (Inr (if d then Dict_out st else Message_out st), w)"
  by (simp add: deliver_def)




lemma query_step_error:
  assumes "status_code (env (sent w) (EXECUTE_BATCH_STATUS (status_request a))) \<noteq> 200"
      and "resp_text (env (sent w) (EXECUTE_BATCH_STATUS (status_request a)))
             \<noteq> Plain ''App not registered in results''"
  shows "query_loop env url a st w =
           Some (Inr st,
             \<lparr>sent = Suc (sent w),
              trace = trace w @
                [Sleep (1 / 2), Post url (EXECUTE_BATCH_STATUS (status_request a)),
                 Print_post_failed
                   (status_code (env (sent w) (EXECUTE_BATCH_STATUS (status_request a))))
                   (resp_text (env (sent w) (EXECUTE_BATCH_STATUS (status_request a))))]\<rparr>)"
  using assms
  by (subst query_loop.simps) (simp add: post_def sleep_def print_line_def world_update)

section \<open>The request builder: what a built request holds\<close>

lemma append_messages_eq:
  "append_messages n md req =
     req\<lparr>messages := messages req @ replicate n (message_factory md (ber_appId req))\<rparr>"
  by (induction n arbitrary: req) (simp_all add: replicate_app_Cons_same)

lemma batch_exec_factory_eq:
  "batch_exec_factory gid rd md n =
     \<lparr>ber_appId = gid,
      ber_user = (case rd_user rd of None \<Rightarrow> [] | Some u \<Rightarrow> u),
      ber_function = (case rd_function rd of None \<Rightarrow> [] | Some f \<Rightarrow> f),
      messages = replicate (nat n) (message_factory md gid)\<rparr>"
  by (simp add: batch_exec_factory_def append_messages_eq ParseDict_ber_def)



section \<open>The placement preload: the assignment loop\<close>

lemma assign_hosts_Inr:
  assumes "\<forall>i\<in>set idxs. i < length (messages req) \<and> i < length hl"
  shows "assign_hosts hl idxs req =
           Inr (req\<lparr>messages := foldl (\<lambda>ms i. ms[i := pin hl i (ms ! i)]) (messages req) idxs\<rparr>)"
  using assms
proof (induction idxs arbitrary: req)
  case Nil
  then show ?case by simp
next
  case (Cons i idxs)
  let ?r = "req\<lparr>messages := (messages req)[i := pin hl i (messages req ! i)]\<rparr>"
  from Cons.prems have i: "i < length (messages req)" "i < length hl" by simp_all
  have step: "assign_hosts hl (i # idxs) req = assign_hosts hl idxs ?r"
    using i by (simp add: set_message_def pin_def)
  have "\<forall>j\<in>set idxs. j < length (messages ?r) \<and> j < length hl"
    using Cons.prems by simp
  from Cons.IH [OF this] show ?case
    unfolding step by simp
qed

lemma assign_hosts_IndexError:
  assumes "\<forall>i\<in>set idxs. i < length (messages req)"
      and "\<exists>i\<in>set idxs. \<not> i < length hl"
  shows "assign_hosts hl idxs req = Inl IndexError"
  using assms
proof (induction idxs arbitrary: req)
  case Nil
  then show ?case by simp
next
  case (Cons i idxs)
  from Cons.prems(1) have i: "i < length (messages req)" by simp
  show ?case
  proof (cases "i < length hl")
    case False
    with i show ?thesis by (simp add: set_message_def)
  next
    case True
    let ?r = "req\<lparr>messages := (messages req)[i := pin hl i (messages req ! i)]\<rparr>"
    have step: "assign_hosts hl (i # idxs) req = assign_hosts hl idxs ?r"
      using i True by (simp add: set_message_def pin_def)
    have a: "\<forall>j\<in>set idxs. j < length (messages ?r)"
      using Cons.prems(1) by simp
    have b: "\<exists>j\<in>set idxs. \<not> j < length hl"
      using Cons.prems(2) True by auto
    show ?thesis unfolding step by (rule Cons.IH [OF a b])
  qed
qed

lemma pin_all:
  assumes "n \<le> length ms"
  shows "foldl (\<lambda>ms i. ms[i := pin hl i (ms ! i)]) ms [0..<n]
           = map (\<lambda>i. pin hl i (ms ! i)) [0..<n] @ drop n ms"
  using assms
proof (induction n)
  case 0
  then show ?case by simp
next
  case (Suc n)
  then have n: "n < length ms" by simp
  have d: "drop n ms = ms ! n # drop (Suc n) ms"
    using n by (simp add: Cons_nth_drop_Suc)
  let ?xs = "map (\<lambda>i. pin hl i (ms ! i)) [0..<n]"
  have l: "length ?xs = n" by simp
  have nth: "(?xs @ ms ! n # drop (Suc n) ms) ! n = ms ! n"
    using nth_append_length [of ?xs "ms ! n" "drop (Suc n) ms"] unfolding l .
  have upd: "(?xs @ ms ! n # drop (Suc n) ms)[n := z] = ?xs @ z # drop (Suc n) ms" for z
    using list_update_length [of ?xs "ms ! n" "drop (Suc n) ms" z] unfolding l .
  have "foldl (\<lambda>ms i. ms[i := pin hl i (ms ! i)]) ms [0..<Suc n]
          = (?xs @ ms ! n # drop (Suc n) ms)[n := pin hl n ((?xs @ ms ! n # drop (Suc n) ms) ! n)]"
    using Suc.IH n by (simp add: d)
  also have "\<dots> = ?xs @ pin hl n (ms ! n) # drop (Suc n) ms"
    unfolding nth upd ..
  finally show ?case by simp
qed

lemma preload_request_ok:
  assumes "int (length hosts) = expected" and "n \<le> expected"
  shows "preload_request md (batch_exec_factory gid rd md n) expected hosts
           = Inr (pinned gid rd md hosts)"
proof -
  let ?mf = "message_factory md gid"
  let ?req = "batch_exec_factory gid rd md n"
  let ?pad = "nat (expected - int (length (messages ?req)))"
  have len: "nat n + ?pad = length hosts"
    using assms by (simp add: batch_exec_factory_eq) linarith
  have padded: "append_messages ?pad md ?req
                  = ?req\<lparr>messages := replicate (length hosts) ?mf\<rparr>"
    using len by (simp add: append_messages_eq batch_exec_factory_eq replicate_add [symmetric])
  have rng: "\<forall>i\<in>set [0..<length hosts].
               i < length (messages (?req\<lparr>messages := replicate (length hosts) ?mf\<rparr>))
               \<and> i < length hosts"
    by simp
  have m: "map (\<lambda>i. pin hosts i (replicate (length hosts) ?mf ! i)) [0..<length hosts]
             = map (\<lambda>i. pin hosts i ?mf) [0..<length hosts]"
    by (intro map_cong) simp_all
  have "preload_request md ?req expected hosts
          = assign_hosts hosts [0..<length hosts] (?req\<lparr>messages := replicate (length hosts) ?mf\<rparr>)"
    using assms(1) by (simp add: preload_request_def padded)
  also have "\<dots> = Inr (?req\<lparr>messages := map (\<lambda>i. pin hosts i ?mf) [0..<length hosts]\<rparr>)"
    unfolding assign_hosts_Inr [OF rng] by (simp add: pin_all m)
  also have "?req\<lparr>messages := map (\<lambda>i. pin hosts i ?mf) [0..<length hosts]\<rparr>
               = pinned gid rd md hosts"
    by (simp add: pinned_def batch_exec_factory_eq ParseDict_ber_def)
  finally show ?thesis .
qed

lemma preload_request_IndexError:
  assumes "int (length hosts) = expected" and "expected < n"
  shows "preload_request md (batch_exec_factory gid rd md n) expected hosts = Inl IndexError"
proof -
  let ?req = "batch_exec_factory gid rd md n"
  have l: "length (messages ?req) = nat n" by (simp add: batch_exec_factory_eq)
  have pad: "nat (expected - int (length (messages ?req))) = 0"
    using assms by (simp add: l)
  have longer: "length hosts < nat n" using assms by linarith
  have a: "\<forall>i\<in>set [0..<nat n]. i < length (messages ?req)" by (simp add: l)
  have b: "\<exists>i\<in>set [0..<nat n]. \<not> i < length hosts"
    using longer by (intro bexI [of _ "length hosts"]) simp_all
  have "preload_request md ?req expected hosts
          = assign_hosts hosts [0..<length (messages (append_messages 0 md ?req))]
              (append_messages 0 md ?req)"
    using assms(1) unfolding preload_request_def pad by simp
  also have "\<dots> = assign_hosts hosts [0..<nat n] ?req"
    by (simp add: l)
  finally show ?thesis
    using assign_hosts_IndexError [OF a b] by simp
qed

lemma pinned_nth:
  assumes "i < length hosts"
  shows "messages (pinned gid rd md hosts) ! i = pin hosts i (message_factory md gid)"
  using assms by (simp add: pinned_def)

section \<open>The serializer: lengths, ASCII text and the decoder\<close>

lemma pack_I_length: "pack_I n = Inr h \<Longrightarrow> length h = 4"
  by (auto simp: pack_I_def split: if_splits)

lemma serialize_string_length:
  assumes "serialize_string buffer s = Inr b"
  shows "length b = length buffer + 4 + byteLen s"
proof -
  from assms obtain h bs where "pack_I (length s) = Inr h" "utf8_encode s = Inr bs"
    "b = buffer @ h @ bs"
    by (auto simp: serialize_string_def split: sum.splits)
  then show ?thesis by (simp add: byteLen_def pack_I_length)
qed

lemma serialize_items_length:
  assumes "serialize_items buffer m = Inr b"
  shows "length b = length buffer + (\<Sum>(k, v)\<leftarrow>m. 4 + byteLen k + 4 + byteLen v)"
  using assms
proof (induction m arbitrary: buffer)
  case Nil
  then show ?case by simp
next
  case (Cons kv m)
  obtain k v where kv: "kv = (k, v)" by (cases kv)
  from Cons.prems obtain b1 b2 where
      1: "serialize_string buffer k = Inr b1" and 2: "serialize_string b1 v = Inr b2"
    and 3: "serialize_items b2 m = Inr b"
    by (auto simp: kv split: sum.splits)
  from Cons.IH [OF 3] serialize_string_length [OF 1] serialize_string_length [OF 2]
  show ?case by (simp add: kv)
qed

lemma serialize_map_length:
  assumes "serialize_map m = Inr b"
  shows "length b = 4 + (\<Sum>(k, v)\<leftarrow>m. 4 + byteLen k + 4 + byteLen v)"
proof -
  from assms obtain h where "pack_I (length m) = Inr h" "serialize_items h m = Inr b"
    by (auto simp: serialize_map_def split: sum.splits)
  then show ?thesis
    using serialize_items_length [of h m b] by (simp add: pack_I_length)
qed

lemma serialize_string_spec:
  assumes "byteLen s = length s"
  shows "serialize_string buffer s =
           (case spec_string s of Inl e \<Rightarrow> Inl e | Inr x \<Rightarrow> Inr (buffer @ x))"
proof (cases "utf8_encode s")
  case (Inl e)
  with assms have "s = []" by (simp add: byteLen_def)
  with Inl show ?thesis by simp
next
  case (Inr bs)
  with assms have "length bs = length s" by (simp add: byteLen_def)
  with Inr show ?thesis
    by (simp add: serialize_string_def spec_string_def split: sum.splits)
qed

lemma serialize_items_spec:
  assumes "\<forall>(k, v)\<in>set m. byteLen k = length k \<and> byteLen v = length v"
  shows "serialize_items buffer m =
           (case spec_entries m of Inl e \<Rightarrow> Inl e | Inr x \<Rightarrow> Inr (buffer @ x))"
  using assms
proof (induction m arbitrary: buffer)
  case Nil
  then show ?case by simp
next
  case (Cons kv m)
  obtain k v where kv: "kv = (k, v)" by (cases kv)
  from Cons.prems have k: "byteLen k = length k" and v: "byteLen v = length v"
    and rest: "\<forall>(k, v)\<in>set m. byteLen k = length k \<and> byteLen v = length v"
    by (simp_all add: kv)
  show ?case
    by (simp add: kv serialize_string_spec [OF k] serialize_string_spec [OF v]
        Cons.IH [OF rest] split: sum.splits)
qed

lemma serialize_map_spec:
  assumes "\<forall>(k, v)\<in>set m. byteLen k = length k \<and> byteLen v = length v"
  shows "serialize_map m = spec_encode m"
  by (simp add: serialize_map_def spec_encode_def serialize_items_spec [OF assms]
      split: sum.splits)

lemma ascii_byteLen:
  assumes "\<forall>c\<in>set s. c < 128"
  shows "byteLen s = length s"
proof -
  have "\<exists>bs. utf8_encode s = Inr bs \<and> length bs = length s"
    using assms by (induction s) (auto simp: utf8_char_def)
  then show ?thesis by (auto simp: byteLen_def)
qed

lemma unat_byte: "n < 256 \<Longrightarrow> unat (of_nat n :: byte) = n"
  by (simp add: unat_of_nat)

lemma split3: "(c div 4096) * 4096 + (c div 64 mod 64) * 64 + c mod 64 = (c :: nat)"
proof -
  define q1 q2 where "q1 = c div 64" and "q2 = q1 div 64"
  have e: "c div 4096 = q2" by (simp add: q1_def q2_def div_mult2_eq [symmetric])
  have "c = c mod 64 + 64 * q1" "q1 = q1 mod 64 + 64 * q2"
    by (simp_all add: q1_def q2_def)
  then show ?thesis unfolding e q1_def [symmetric] by linarith
qed

lemma split4:
  "(c div 262144) * 262144 + (c div 4096 mod 64) * 4096 + (c div 64 mod 64) * 64 + c mod 64
     = (c :: nat)"
proof -
  define q1 q2 q3 where "q1 = c div 64" and "q2 = q1 div 64" and "q3 = q2 div 64"
  have e2: "c div 4096 = q2" and e3: "c div 262144 = q3"
    by (simp_all add: q1_def q2_def q3_def div_mult2_eq [symmetric])
  have "c = c mod 64 + 64 * q1" "q1 = q1 mod 64 + 64 * q2" "q2 = q2 mod 64 + 64 * q3"
    by (simp_all add: q1_def q2_def q3_def)
  then show ?thesis unfolding e2 e3 q1_def [symmetric] by linarith
qed

lemma utf8_decode_char:
  assumes "utf8_char c = Inr bs"
  shows "utf8_decode (bs @ rest) = map_option ((#) c) (utf8_decode rest)"
proof -
  consider (one) "c < 128" | (two) "128 \<le> c" "c < 2048"
    | (three) "2048 \<le> c" "c < 65536" | (four) "65536 \<le> c"
    by linarith
  then show ?thesis
  proof cases
    case one
    define B0 :: byte where "B0 = of_nat c"
    from one assms have bs: "bs = [B0]" by (simp add: utf8_char_def B0_def)
    have "unat B0 = c" unfolding B0_def using one by (intro unat_byte) simp
    then show ?thesis using one by (simp add: bs)
  next
    case two
    define B0 B1 :: byte where "B0 = of_nat (192 + c div 64)" and "B1 = of_nat (128 + c mod 64)"
    from two assms have bs: "bs = [B0, B1]"
      by (simp add: utf8_char_def B0_def B1_def)
    have d: "2 \<le> c div 64" "c div 64 < 32" using two by simp_all
    have b0: "unat B0 = 192 + c div 64"
      unfolding B0_def using d by (intro unat_byte) simp
    have b1: "unat B1 = 128 + c mod 64"
      unfolding B1_def by (intro unat_byte) simp
    show ?thesis using d by (simp add: bs b0 b1 is_cont_def)
  next
    case three
    define B0 B1 B2 :: byte where "B0 = of_nat (224 + c div 4096)"
      and "B1 = of_nat (128 + c div 64 mod 64)" and "B2 = of_nat (128 + c mod 64)"
    from three assms have ns: "\<not> (55296 \<le> c \<and> c < 57344)"
      and bs: "bs = [B0, B1, B2]"
      by (auto simp: utf8_char_def B0_def B1_def B2_def split: if_splits)
    have d: "c div 4096 < 16" using three by simp
    have b0: "unat B0 = 224 + c div 4096"
      unfolding B0_def using d by (intro unat_byte) simp
    have b1: "unat B1 = 128 + c div 64 mod 64"
      unfolding B1_def by (intro unat_byte) simp
    have b2: "unat B2 = 128 + c mod 64"
      unfolding B2_def by (intro unat_byte) simp
    show ?thesis using d three ns by (simp add: bs b0 b1 b2 is_cont_def split3)
  next
    case four
    define B0 B1 B2 B3 :: byte where "B0 = of_nat (240 + c div 262144)"
      and "B1 = of_nat (128 + c div 4096 mod 64)" and "B2 = of_nat (128 + c div 64 mod 64)"
      and "B3 = of_nat (128 + c mod 64)"
    from four assms have hi: "c < 1114112"
      and bs: "bs = [B0, B1, B2, B3]"
      by (auto simp: utf8_char_def B0_def B1_def B2_def B3_def split: if_splits)
    have d: "c div 262144 < 5" using hi by simp
    have b0: "unat B0 = 240 + c div 262144"
      unfolding B0_def using d by (intro unat_byte) simp
    have b1: "unat B1 = 128 + c div 4096 mod 64"
      unfolding B1_def by (intro unat_byte) simp
    have b2: "unat B2 = 128 + c div 64 mod 64"
      unfolding B2_def by (intro unat_byte) simp
    have b3: "unat B3 = 128 + c mod 64"
      unfolding B3_def by (intro unat_byte) simp
    show ?thesis using d four hi by (simp add: bs b0 b1 b2 b3 is_cont_def split4)
  qed
qed

lemma utf8_roundtrip:
  assumes "utf8_encode s = Inr bs"
  shows "utf8_decode bs = Some s"
  using assms
proof (induction s arbitrary: bs)
  case Nil
  then show ?case by simp
next
  case (Cons c s)
  from Cons.prems obtain cb rest where c: "utf8_char c = Inr cb"
    and r: "utf8_encode s = Inr rest" and bs: "bs = cb @ rest"
    by (auto split: sum.splits)
  show ?case unfolding bs utf8_decode_char [OF c] Cons.IH [OF r] by simp
qed

lemma unpack_pack:
  assumes "pack_I n = Inr h"
  shows "unpack_I h = n \<and> length h = 4"
proof -
  from assms have n: "n < 2 ^ 32"
    and h: "h = [of_nat n, of_nat (n div 256), of_nat (n div 65536), of_nat (n div 16777216)]"
    by (auto simp: pack_I_def split: if_splits)
  define q1 q2 q3 where "q1 = n div 256" and "q2 = q1 div 256" and "q3 = q2 div 256"
  have e2: "n div 65536 = q2" and e3: "n div 16777216 = q3"
    by (simp_all add: q1_def q2_def q3_def div_mult2_eq [symmetric])
  have s1: "n = n mod 256 + 256 * q1" and s2: "q1 = q1 mod 256 + 256 * q2"
    and s3: "q2 = q2 mod 256 + 256 * q3"
    by (simp_all add: q1_def q2_def q3_def)
  have "q3 < 256" using n unfolding e3 [symmetric] by simp
  then have s4: "q3 mod 256 = q3" by simp
  have e1: "n div 256 = q1" by (simp add: q1_def)
  have "n mod 256 + 256 * (n div 256 mod 256) + 65536 * (n div 65536 mod 256)
          + 16777216 * (n div 16777216 mod 256) = n"
    unfolding e1 e2 e3 using s1 s2 s3 s4 by linarith
  moreover have "n div 16777216 mod 256 = n div 16777216"
    using s4 by (simp add: e3)
  ultimately show ?thesis by (simp add: h unpack_I_def unat_of_nat)
qed

lemma read_string_spec:
  assumes "spec_string s = Inr x"
  shows "read_string (x @ rest) = Some (s, rest)"
proof -
  from assms obtain bs h where e: "utf8_encode s = Inr bs"
    and p: "pack_I (length bs) = Inr h" and x: "x = h @ bs"
    by (auto simp: spec_string_def split: sum.splits)
  from unpack_pack [OF p] have u: "unpack_I h = length bs" and l: "length h = 4" by simp_all
  have t: "take 4 (x @ rest) = h" and d: "drop 4 (x @ rest) = bs @ rest"
    using l by (simp_all add: x)
  show ?thesis
    unfolding read_string_def t d u using l utf8_roundtrip [OF e]
    by (simp add: x)
qed

lemma read_pairs_spec:
  assumes "spec_entries m = Inr x"
  shows "read_pairs (length m) (x @ rest) = Some (m, rest)"
  using assms
proof (induction m arbitrary: x)
  case Nil
  then show ?case by simp
next
  case (Cons kv m)
  obtain k v where kv: "kv = (k, v)" by (cases kv)
  from Cons.prems obtain kb vb r where k: "spec_string k = Inr kb"
    and v: "spec_string v = Inr vb" and r: "spec_entries m = Inr r"
    and x: "x = kb @ vb @ r"
    by (auto simp: kv split: sum.splits)
  have 1: "read_string (x @ rest) = Some (k, vb @ r @ rest)"
    using read_string_spec [OF k, of "vb @ r @ rest"] by (simp add: x)
  have 2: "read_string (vb @ r @ rest) = Some (v, r @ rest)"
    by (rule read_string_spec [OF v])
  show ?case by (simp add: kv 1 2 Cons.IH [OF r])
qed

lemma decode_spec_encode:
  assumes "spec_encode m = Inr bs"
  shows "decode bs = Some m"
proof -
  from assms obtain h x where p: "pack_I (length m) = Inr h"
    and e: "spec_entries m = Inr x" and bs: "bs = h @ x"
    by (auto simp: spec_encode_def split: sum.splits)
  from unpack_pack [OF p] have u: "unpack_I h = length m" and l: "length h = 4" by simp_all
  have t: "take 4 bs = h" and d: "drop 4 bs = x"
    using l by (simp_all add: bs)
  have "read_pairs (length m) x = Some (m, [])"
    using read_pairs_spec [OF e, of "[]"] by simp
  then show ?thesis
    unfolding decode_def t d u using l by (simp add: bs)
qed

lemma roundtrip_where_lengths_agree:
  assumes "\<forall>(k, v)\<in>set m. byteLen k = length k \<and> byteLen v = length v"
      and "serialize_map m = Inr bs"
  shows "decode bs = Some m"
  using assms(2) unfolding serialize_map_spec [OF assms(1)] by (rule decode_spec_encode)

section \<open>The serializer on text outside ASCII\<close>

text \<open>
  C3. The claim: every length field of \<open>serialize_map\<close>'s output is the number of
  encoded bytes of the string that follows, not its number of characters. On the mapping
  with the one entry that maps the character U+00E9 to "x", the key is one code point (233) and two UTF-8
  bytes (195, 169): \<open>serialize_string\<close> packs \<open>len(string)\<close>, so the key's length
  field is 1 and two key bytes follow it, where the layout of the specification has the
  length field 2. Where every string has as many UTF-8 bytes as characters, as ASCII text
  has, the two layouts are the same (\<open>serialize_map_spec\<close>, \<open>ascii_byteLen\<close>).
\<close>

theorem length_field_counts_code_points:
  "serialize_map [([233], [120])]
     = Inr [1, 0, 0, 0,  1, 0, 0, 0,  195, 169,  1, 0, 0, 0,  120]
   \<and> spec_encode [([233], [120])]
     = Inr [1, 0, 0, 0,  2, 0, 0, 0,  195, 169,  1, 0, 0, 0,  120]
   \<and> length [233 :: nat] = 1 \<and> byteLen [233] = 2"
  by (simp add: serialize_map_def serialize_string_def spec_encode_def spec_string_def
      pack_I_def utf8_char_def byteLen_def)

text \<open>
  C2. The claim: decoding the encoding gives back the mapping, for every mapping of
  strings, multi-byte text included, and the encoding has
  \<open>4 + \<Sum>(4 + byteLen k + 4 + byteLen v)\<close> bytes. On the mapping of the character U+00E9 to "x" the
  encoding has the 15 bytes the formula gives, but its key length says 1 where the key
  has 2 bytes, and the decoder, which reads as many bytes as the length field says,
  rejects it; it reads the mapping back from the layout of the specification. The
  decoder inverts the layout of the specification on every mapping
  (\<open>decode_spec_encode\<close>), the encoding has the length of the formula on every mapping
  (\<open>serialize_map_length\<close>), and the round trip holds where every string has as many
  bytes as characters (\<open>roundtrip_where_lengths_agree\<close>).
\<close>

theorem roundtrip_fails_on_multibyte_text:
  "serialize_map [([233], [120])]
     = Inr [1, 0, 0, 0,  1, 0, 0, 0,  195, 169,  1, 0, 0, 0,  120]
   \<and> decode [1, 0, 0, 0,  1, 0, 0, 0,  195, 169,  1, 0, 0, 0,  120] = None
   \<and> decode [1, 0, 0, 0,  2, 0, 0, 0,  195, 169,  1, 0, 0, 0,  120] = Some [([233], [120])]
   \<and> 4 + (4 + byteLen [233] + 4 + byteLen [120]) = (15 :: nat)"
  by (simp add: serialize_map_def serialize_string_def pack_I_def utf8_char_def decode_def
      read_string_def unpack_I_def is_cont_def byteLen_def)

section \<open>The bound request without chained identifiers\<close>

text \<open>
  C4. The claim: \<open>batch_exec_input_factory\<close> fails only on an \<open>inputs\<close> or a
  \<open>chainedIds\<close> list of the wrong length, and succeeds in every other case, also when
  both are omitted. With one message and neither list, no assertion fails, and the loop
  raises \<open>TypeError\<close> at \<open>chained_id_list[i]\<close>; \<open>invoke_wasm_without_wait\<close>, which
  never passes a \<open>chained_id_list\<close>, raises it before any POST.
\<close>

theorem input_factory_needs_chained_ids:
  "batch_exec_input_factory rd app_id md 1 None None
     = Inl (TypeError ''NoneType object is not subscriptable'')
   \<and> invoke_wasm_without_wait env url app_id md 1 (Some rd) None w
     = (Inl (TypeError ''NoneType object is not subscriptable''), w)"
  by (simp add: invoke_wasm_without_wait_def resolve_req_dict_def batch_exec_input_factory_def)

section \<open>A failed first poll of the result query\<close>

text \<open>
  C7. The claim: in the waiting submission and in the result query, a response that is
  neither a success nor the sentinel "App not registered in results" ends the poll loop
  and the call returns the status seen last, without raising. In \<open>query_result\<close>, when
  the first poll is answered with an error, no status has been seen: the loop ends after
  the one POST, and \<open>return ber_status\<close> raises \<open>UnboundLocalError\<close>. The loop of
  \<open>invoke_and_await\<close>, which starts from the status of the admission, returns the
  status it holds (\<open>poll_step_error\<close>), and so does the loop of \<open>query_result\<close> once
  a status has been seen (\<open>query_step_error\<close>).
\<close>

theorem query_result_without_status_raises:
  "query_result failing_endpoint url a w =
     Some (Inl (UnboundLocalError ''ber_status''),
           w\<lparr>sent := Suc (sent w),
             trace := trace w @
               [Sleep (1 / 2),
                Post url (EXECUTE_BATCH_STATUS (status_request a)),
                Print_post_failed 500 (Plain ''Internal Server Error'')]\<rparr>)"
  by (simp add: query_result_def query_loop.simps [of failing_endpoint url a None w]
      post_def sleep_def print_line_def failing_endpoint_def)

section \<open>The admission retry bound\<close>



section \<open>The waiting submission with two polls\<close>

text \<open>
  \<open>invoke_wasm\<close> reaches \<open>invoke_and_await\<close> either directly, without a host list,
  or after a preload that the endpoint accepted.
\<close>

lemma invoke_wasm_enters_await:
  assumes "resolve_req_dict req_dict md = Inr rd"
      and "host_list = None \<and> w1 = w
           \<or> (\<exists>hosts preq. host_list = Some hosts
                \<and> preload_request md (batch_exec_factory gid rd md num_messages)
                      (expected_num_messages md num_messages) hosts = Inr preq
                \<and> status_code (env (sent w) (PRELOAD_SCHEDULING_DECISION preq)) = 200
                \<and> w1 = \<lparr>sent = Suc (sent w),
                         trace = trace w @ [Post url (PRELOAD_SCHEDULING_DECISION preq)]\<rparr>)"
  shows "invoke_wasm env gid url md num_messages req_dict dict_out host_list w =
           deliver dict_out
             (invoke_and_await env url (EXECUTE_BATCH (batch_exec_factory gid rd md num_messages))
                (expected_num_messages md num_messages) w1)"
  using assms(2)
proof (elim disjE conjE exE)
  assume "host_list = None" "w1 = w"
  then show ?thesis using assms(1) by (simp add: invoke_wasm_def)
next
  fix hosts preq
  assume "host_list = Some hosts"
    and "preload_request md (batch_exec_factory gid rd md num_messages)
           (expected_num_messages md num_messages) hosts = Inr preq"
    and "status_code (env (sent w) (PRELOAD_SCHEDULING_DECISION preq)) = 200"
    and "w1 = \<lparr>sent = Suc (sent w),
               trace = trace w @ [Post url (PRELOAD_SCHEDULING_DECISION preq)]\<rparr>"
  then show ?thesis
    using assms(1) by (simp add: invoke_wasm_def post_def world_update)
qed

text \<open>
  C1, as the code has it. In \<open>invoke_wasm\<close>, when \<open>invoke_and_await\<close> is reached
  (without a host list, or after an accepted preload) and the admission succeeds (at the
  first attempt or after \<open>k < 10\<close> refusals), and the first status query is answered
  with a status that is not finished and the second with one that is, the call sends
  exactly two status queries, sleeps the poll period of 2 seconds before each, and
  returns the status of the second response as the server sent it. The value the client
  computed (\<open>num_messages\<close>, or \<open>mpi_world_size\<close> when the template has it) is the
  \<open>expectedNumMessages\<close> of the status that both queries carry.
\<close>

theorem waiting_submission_two_polls:
  assumes "resolve_req_dict req_dict md = Inr rd"
      and "host_list = None \<and> w1 = w
           \<or> (\<exists>hosts preq. host_list = Some hosts
                \<and> preload_request md (batch_exec_factory gid rd md num_messages)
                      (expected_num_messages md num_messages) hosts = Inr preq
                \<and> status_code (env (sent w) (PRELOAD_SCHEDULING_DECISION preq)) = 200
                \<and> w1 = \<lparr>sent = Suc (sent w),
                         trace = trace w @ [Post url (PRELOAD_SCHEDULING_DECISION preq)]\<rparr>)"
      and "m = EXECUTE_BATCH (batch_exec_factory gid rd md num_messages)"
      and "q = EXECUTE_BATCH_STATUS (s0\<lparr>expectedNumMessages := expected_num_messages md num_messages\<rparr>)"
      and "\<forall>j<k. env (sent w1 + j) m = \<lparr>status_code = 500, resp_text = Plain ''No available hosts''\<rparr>"
      and "k < 10"
      and "env (sent w1 + k) m = \<lparr>status_code = 200, resp_text = Json s0\<rparr>"
      and "env (sent w1 + k + 1) q = \<lparr>status_code = 200, resp_text = Json s1\<rparr>"
      and "\<not> finished s1"
      and "env (sent w1 + k + 2) q = \<lparr>status_code = 200, resp_text = Json s2\<rparr>"
      and "finished s2"
  shows "invoke_wasm env gid url md num_messages req_dict dict_out host_list w =
           Some (Inr (if dict_out then Dict_out s2 else Message_out s2),
                 \<lparr>sent = sent w1 + k + 3,
                  trace = trace w1 @ retry_trace url m 10 k
                            @ [Sleep 2, Post url q, Sleep 2, Post url q]\<rparr>)"
proof -
  have "invoke_and_await env url m (expected_num_messages md num_messages) w1 =
           Some (Inr s2,
                 \<lparr>sent = sent w1 + k + 3,
                  trace = trace w1 @ retry_trace url m 10 k
                            @ [Sleep 2, Post url q, Sleep 2, Post url q]\<rparr>)"
    by (rule await_two_polls [where env = env and w = w1 and k = k and m = m and q = q
          and ?s0.0 = s0 and ?s1.0 = s1,
          OF assms(5) assms(7) assms(6) assms(4) assms(8) assms(9) assms(10) assms(11)])
  then show ?thesis
    unfolding invoke_wasm_enters_await [where env = env and w = w and ?w1.0 = w1
        and url = url, OF assms(1) assms(2)]
    using assms(3) by (simp add: deliver_Some)
qed

theorem waiting_submission_two_polls_witness:
  "invoke_wasm busy_then_polled_twice 42 planner_url alice_work 3 None True None start =
     Some (Inr (Dict_out \<lparr>appId = 42, finished = True, expectedNumMessages = 3\<rparr>),
           \<lparr>sent = 4,
            trace =
              retry_trace planner_url
                (EXECUTE_BATCH (batch_exec_factory 42 alice_req alice_work 3)) 10 1
              @ [Sleep 2,
                 Post planner_url
                   (EXECUTE_BATCH_STATUS
                      \<lparr>appId = 42, finished = False, expectedNumMessages = 3\<rparr>),
                 Sleep 2,
                 Post planner_url
                   (EXECUTE_BATCH_STATUS
                      \<lparr>appId = 42, finished = False, expectedNumMessages = 3\<rparr>)]\<rparr>)
   \<and> invoke_wasm preload_then_polled_twice 42 planner_url mpi_job 1 None False
       (Some two_hosts) start =
     Some (Inr (Message_out \<lparr>appId = 42, finished = True, expectedNumMessages = 2\<rparr>),
           \<lparr>sent = 4,
            trace =
              [Post planner_url
                 (PRELOAD_SCHEDULING_DECISION (pinned 42 alice_req mpi_job two_hosts)),
               Post planner_url (EXECUTE_BATCH (batch_exec_factory 42 alice_req mpi_job 1)),
               Sleep 2,
               Post planner_url
                 (EXECUTE_BATCH_STATUS
                    \<lparr>appId = 42, finished = False, expectedNumMessages = 2\<rparr>),
               Sleep 2,
               Post planner_url
                 (EXECUTE_BATCH_STATUS
                    \<lparr>appId = 42, finished = False, expectedNumMessages = 2\<rparr>)]\<rparr>)"
proof -
  let ?m = "EXECUTE_BATCH (batch_exec_factory 42 alice_req alice_work 3)"
  let ?s0 = "\<lparr>appId = 42, finished = False, expectedNumMessages = 0\<rparr>"
  let ?s1 = "\<lparr>appId = 42, finished = False, expectedNumMessages = 3\<rparr>"
  let ?s2 = "\<lparr>appId = 42, finished = True, expectedNumMessages = 3\<rparr>"
  let ?q = "EXECUTE_BATCH_STATUS (?s0\<lparr>expectedNumMessages := expected_num_messages alice_work 3\<rparr>)"
  have h1: "resolve_req_dict None alice_work = Inr alice_req"
    by (simp add: resolve_req_dict_def default_req_dict_def alice_work_def alice_req_def)
  have h2: "(None :: string list option) = None \<and> start = start
           \<or> (\<exists>hosts preq. (None :: string list option) = Some hosts
                \<and> preload_request alice_work (batch_exec_factory 42 alice_req alice_work 3)
                      (expected_num_messages alice_work 3) hosts = Inr preq
                \<and> status_code (busy_then_polled_twice (sent start)
                      (PRELOAD_SCHEDULING_DECISION preq)) = 200
                \<and> start = \<lparr>sent = Suc (sent start),
                         trace = trace start @ [Post planner_url (PRELOAD_SCHEDULING_DECISION preq)]\<rparr>)"
    by simp
  have h4: "\<forall>j<1. busy_then_polled_twice (sent start + j) ?m
              = \<lparr>status_code = 500, resp_text = Plain ''No available hosts''\<rparr>"
    by (simp add: start_def busy_then_polled_twice_def scripted_def busy_def)
  have h5: "(1::nat) < 10" by simp
  have h6: "busy_then_polled_twice (sent start + 1) ?m = \<lparr>status_code = 200, resp_text = Json ?s0\<rparr>"
    by (simp add: start_def busy_then_polled_twice_def scripted_def ok_def)
  have h7: "busy_then_polled_twice (sent start + 1 + 1) ?q = \<lparr>status_code = 200, resp_text = Json ?s1\<rparr>"
    by (simp add: start_def busy_then_polled_twice_def scripted_def ok_def)
  have h8: "\<not> finished ?s1" by simp
  have h9: "busy_then_polled_twice (sent start + 1 + 2) ?q = \<lparr>status_code = 200, resp_text = Json ?s2\<rparr>"
    by (simp add: start_def busy_then_polled_twice_def scripted_def ok_def)
  have h10: "finished ?s2" by simp
  have direct: "invoke_wasm busy_then_polled_twice 42 planner_url alice_work 3 None True None start =
     Some (Inr (Dict_out ?s2),
           \<lparr>sent = 4,
            trace = retry_trace planner_url ?m 10 1
              @ [Sleep 2, Post planner_url (EXECUTE_BATCH_STATUS ?s1),
                 Sleep 2, Post planner_url (EXECUTE_BATCH_STATUS ?s1)]\<rparr>)"
    using waiting_submission_two_polls [where env = busy_then_polled_twice and w = start
        and ?w1.0 = start and k = 1 and md = alice_work and num_messages = 3
        and req_dict = None and host_list = None
        and rd = alice_req and gid = 42 and url = planner_url and dict_out = True
        and ?s0.0 = "?s0" and ?s1.0 = "?s1" and ?s2.0 = "?s2",
        OF h1 h2 refl refl h4 h5 h6 h7 h8 h9 h10]
    by (simp add: start_def expected_num_messages_def alice_work_def)
  let ?E = "preload_then_polled_twice"
  let ?pre = "PRELOAD_SCHEDULING_DECISION (pinned 42 alice_req mpi_job two_hosts)"
  let ?w1 = "\<lparr>sent = Suc (sent start), trace = trace start @ [Post planner_url ?pre]\<rparr>"
  let ?n = "EXECUTE_BATCH (batch_exec_factory 42 alice_req mpi_job 1)"
  let ?t1 = "\<lparr>appId = 42, finished = False, expectedNumMessages = 2\<rparr>"
  let ?t2 = "\<lparr>appId = 42, finished = True, expectedNumMessages = 2\<rparr>"
  let ?r = "EXECUTE_BATCH_STATUS (?s0\<lparr>expectedNumMessages := expected_num_messages mpi_job 1\<rparr>)"
  have e: "expected_num_messages mpi_job 1 = 2"
    by (simp add: expected_num_messages_def mpi_job_def)
  have g1: "resolve_req_dict None mpi_job = Inr alice_req"
    by (simp add: resolve_req_dict_def default_req_dict_def mpi_job_def alice_req_def)
  have pre: "preload_request mpi_job (batch_exec_factory 42 alice_req mpi_job 1)
               (expected_num_messages mpi_job 1) two_hosts
               = Inr (pinned 42 alice_req mpi_job two_hosts)"
    unfolding e by (rule preload_request_ok) (simp_all add: two_hosts_def)
  have acc: "status_code (?E (sent start) ?pre) = 200"
    by (simp add: preload_then_polled_twice_def scripted_def start_def)
  have g2: "Some two_hosts = (None :: string list option) \<and> ?w1 = start
           \<or> (\<exists>hosts preq. Some two_hosts = Some hosts
                \<and> preload_request mpi_job (batch_exec_factory 42 alice_req mpi_job 1)
                      (expected_num_messages mpi_job 1) hosts = Inr preq
                \<and> status_code (?E (sent start) (PRELOAD_SCHEDULING_DECISION preq)) = 200
                \<and> ?w1 = \<lparr>sent = Suc (sent start),
                         trace = trace start @ [Post planner_url (PRELOAD_SCHEDULING_DECISION preq)]\<rparr>)"
    using pre acc by blast
  have g4: "\<forall>j<0. ?E (sent ?w1 + j) ?n
              = \<lparr>status_code = 500, resp_text = Plain ''No available hosts''\<rparr>"
    by simp
  have g5: "(0::nat) < 10" by simp
  have g6: "?E (sent ?w1 + 0) ?n = \<lparr>status_code = 200, resp_text = Json ?s0\<rparr>"
    by (simp add: start_def preload_then_polled_twice_def scripted_def ok_def)
  have g7: "?E (sent ?w1 + 0 + 1) ?r = \<lparr>status_code = 200, resp_text = Json ?t1\<rparr>"
    by (simp add: start_def preload_then_polled_twice_def scripted_def ok_def)
  have g8: "\<not> finished ?t1" by simp
  have g9: "?E (sent ?w1 + 0 + 2) ?r = \<lparr>status_code = 200, resp_text = Json ?t2\<rparr>"
    by (simp add: start_def preload_then_polled_twice_def scripted_def ok_def)
  have g10: "finished ?t2" by simp
  have pinned_path: "invoke_wasm ?E 42 planner_url mpi_job 1 None False (Some two_hosts) start =
     Some (Inr (Message_out ?t2),
           \<lparr>sent = 4,
            trace = [Post planner_url ?pre, Post planner_url ?n,
                     Sleep 2, Post planner_url (EXECUTE_BATCH_STATUS ?t1),
                     Sleep 2, Post planner_url (EXECUTE_BATCH_STATUS ?t1)]\<rparr>)"
    using waiting_submission_two_polls [where env = "?E" and w = start
        and ?w1.0 = "?w1" and k = 0 and md = mpi_job and num_messages = 1
        and req_dict = None and host_list = "Some two_hosts"
        and rd = alice_req and gid = 42 and url = planner_url and dict_out = False
        and ?s0.0 = "?s0" and ?s1.0 = "?t1" and ?s2.0 = "?t2",
        OF g1 g2 refl refl g4 g5 g6 g7 g8 g9 g10]
    by (simp add: start_def e retry_trace_def)
  from direct pinned_path show ?thesis by simp
qed

lemma polled_twice_simps:
  "polled_twice 0 m = ok False 0" "polled_twice (Suc 0) m = ok False 0"
  "polled_twice (Suc (Suc 0)) m = ok True 7"
  by (simp_all add: polled_twice_def scripted_def)

text \<open>
  C1, as stated, says that the returned status has the \<open>expectedNumMessages\<close> the client
  supplied and no value of the server. In the loop the variable \<open>ber_status\<close> is
  replaced by the status parsed from each response: with three messages requested and
  a server whose final status says 7, the call returns 7.
\<close>

theorem returned_status_is_the_servers:
  "invoke_wasm polled_twice 42 planner_url alice_work 3 None False None start =
     Some (Inr (Message_out \<lparr>appId = 42, finished = True, expectedNumMessages = 7\<rparr>),
           \<lparr>sent = 3,
            trace =
              [Post planner_url
                 (EXECUTE_BATCH (batch_exec_factory 42
                    alice_req alice_work 3)),
               Sleep 2,
               Post planner_url
                 (EXECUTE_BATCH_STATUS \<lparr>appId = 42, finished = False, expectedNumMessages = 3\<rparr>),
               Sleep 2,
               Post planner_url
                 (EXECUTE_BATCH_STATUS \<lparr>appId = 42, finished = False, expectedNumMessages = 3\<rparr>)]\<rparr>)
   \<and> expected_num_messages alice_work 3 = 3"
proof -
  have r: "resolve_req_dict None alice_work
             = Inr alice_req"
    by (simp add: resolve_req_dict_def default_req_dict_def alice_work_def alice_req_def)
  have e: "expected_num_messages alice_work 3 = 3"
    by (simp add: expected_num_messages_def alice_work_def)
  have a: "admission polled_twice u m await_num_retries await_num_retries None start
             = (Some (ok False 0), \<lparr>sent = Suc 0, trace = [Post u m]\<rparr>)" for u m
    by (simp add: await_num_retries_def numeral_nat polled_twice_simps post_def start_def
        ok_def no_available_hosts_def)
  have p1: "poll_loop polled_twice u q st \<lparr>sent = Suc 0, trace = t\<rparr>
              = poll_loop polled_twice u q \<lparr>appId = 42, finished = False, expectedNumMessages = 0\<rparr>
                  \<lparr>sent = Suc (Suc 0), trace = t @ [Sleep 2, Post u q]\<rparr>" for u q st t
    by (subst poll_loop.simps)
       (simp add: polled_twice_simps post_def sleep_def ok_def Parse_def)
  have p2: "poll_loop polled_twice u q st \<lparr>sent = Suc (Suc 0), trace = t\<rparr>
              = Some (Inr \<lparr>appId = 42, finished = True, expectedNumMessages = 7\<rparr>,
                  \<lparr>sent = Suc (Suc (Suc 0)), trace = t @ [Sleep 2, Post u q]\<rparr>)" for u q st t
    by (subst poll_loop.simps)
       (simp add: polled_twice_simps post_def sleep_def ok_def Parse_def)
  show ?thesis
    by (simp add: invoke_wasm_def r e invoke_and_await_def a ok_def Parse_def p1 p2 deliver_def
        numeral_3_eq_3)
qed

section \<open>The sentinel of a batch that is not registered yet\<close>



section \<open>The placement preload\<close>

text \<open>
  What \<open>invoke_wasm\<close> does with a host list, case by case. The expected count is the
  template's \<open>mpi_world_size\<close> when it has one and \<open>num_messages\<close> otherwise. A host
  list of another length fails the assertion, before any POST. With a host list of that
  length and a request that is not longer than it, the request is padded to the expected
  count with copies of the template, message \<open>i\<close> gets \<open>groupIdx = i\<close> and
  \<open>executedHost = host_list[i]\<close> for every \<open>i\<close> below the length of the host list,
  and this request is POSTed as the preload before the submission. In the one case
  left, a request longer than the host list, the assignment loop raises \<open>IndexError\<close>
  and no preload is sent.
\<close>

lemma placement_preload:
  assumes "resolve_req_dict req_dict md = Inr rd"
  shows "expected_num_messages md n = (case md_mpi_world_size md of Some k \<Rightarrow> k | None \<Rightarrow> n)
    \<and> (int (length hosts) \<noteq> expected_num_messages md n \<longrightarrow>
          invoke_wasm env gid url md n req_dict dict_out (Some hosts) w
            = Some (Inl (AssertionError []), w))
    \<and> (int (length hosts) = expected_num_messages md n \<and> n \<le> expected_num_messages md n \<longrightarrow>
          preload_request md (batch_exec_factory gid rd md n) (expected_num_messages md n) hosts
            = Inr (pinned gid rd md hosts)
          \<and> length (messages (pinned gid rd md hosts)) = length hosts
          \<and> (\<forall>i<length hosts.
                groupIdx (messages (pinned gid rd md hosts) ! i) = int i
                \<and> executedHost (messages (pinned gid rd md hosts) ! i) = hosts ! i
                \<and> messages (pinned gid rd md hosts) ! i
                    = (message_factory md gid)\<lparr>groupIdx := int i, executedHost := hosts ! i\<rparr>)
          \<and> (status_code (env (sent w) (PRELOAD_SCHEDULING_DECISION (pinned gid rd md hosts))) = 200
               \<longrightarrow> invoke_wasm env gid url md n req_dict dict_out (Some hosts) w
                     = deliver dict_out
                         (invoke_and_await env url
                            (EXECUTE_BATCH (batch_exec_factory gid rd md n))
                            (expected_num_messages md n)
                            \<lparr>sent = Suc (sent w),
                             trace = trace w @
                               [Post url (PRELOAD_SCHEDULING_DECISION (pinned gid rd md hosts))]\<rparr>)))
    \<and> (int (length hosts) = expected_num_messages md n \<and> expected_num_messages md n < n \<longrightarrow>
          invoke_wasm env gid url md n req_dict dict_out (Some hosts) w
            = Some (Inl IndexError, w))"
proof -
  let ?E = "expected_num_messages md n"
  have c1: "?E = (case md_mpi_world_size md of Some k \<Rightarrow> k | None \<Rightarrow> n)"
    by (simp add: expected_num_messages_def split: option.splits)
  have c2: "invoke_wasm env gid url md n req_dict dict_out (Some hosts) w
              = Some (Inl (AssertionError []), w)"
    if "int (length hosts) \<noteq> ?E"
    using that assms by (simp add: invoke_wasm_def preload_request_def)
  have c3a: "preload_request md (batch_exec_factory gid rd md n) ?E hosts
               = Inr (pinned gid rd md hosts)"
    if "int (length hosts) = ?E" "n \<le> ?E"
    using that by (rule preload_request_ok)
  have c3b: "length (messages (pinned gid rd md hosts)) = length hosts"
    by (simp add: pinned_def)
  have c3c: "\<forall>i<length hosts.
                groupIdx (messages (pinned gid rd md hosts) ! i) = int i
                \<and> executedHost (messages (pinned gid rd md hosts) ! i) = hosts ! i
                \<and> messages (pinned gid rd md hosts) ! i
                    = (message_factory md gid)\<lparr>groupIdx := int i, executedHost := hosts ! i\<rparr>"
    by (simp add: pinned_nth pin_def)
  have c3d: "invoke_wasm env gid url md n req_dict dict_out (Some hosts) w
               = deliver dict_out
                   (invoke_and_await env url (EXECUTE_BATCH (batch_exec_factory gid rd md n)) ?E
                      \<lparr>sent = Suc (sent w),
                       trace = trace w @
                         [Post url (PRELOAD_SCHEDULING_DECISION (pinned gid rd md hosts))]\<rparr>)"
    if "int (length hosts) = ?E" "n \<le> ?E"
      "status_code (env (sent w) (PRELOAD_SCHEDULING_DECISION (pinned gid rd md hosts))) = 200"
    using that(3) assms
    by (simp add: invoke_wasm_def c3a [OF that(1,2)] post_def world_update)
  have c4: "invoke_wasm env gid url md n req_dict dict_out (Some hosts) w
              = Some (Inl IndexError, w)"
    if "int (length hosts) = ?E" "?E < n"
    using assms by (simp add: invoke_wasm_def preload_request_IndexError [OF that])
  from c1 c2 c3a c3b c3c c3d c4 show ?thesis by blast
qed

lemma placement_preload_examples:
  "invoke_wasm preload_accepted 42 planner_url mpi_job 1 None False (Some [''10.0.0.1'']) start
     = Some (Inl (AssertionError []), start)
   \<and> preload_request mpi_job (batch_exec_factory 42 alice_req mpi_job 1) 2 two_hosts
     = Inr (pinned 42 alice_req mpi_job two_hosts)
   \<and> length (messages (pinned 42 alice_req mpi_job two_hosts)) = 2
   \<and> groupIdx (messages (pinned 42 alice_req mpi_job two_hosts) ! 1) = 1
   \<and> executedHost (messages (pinned 42 alice_req mpi_job two_hosts) ! 1) = ''10.0.0.2''
   \<and> invoke_wasm preload_accepted 42 planner_url mpi_job 1 None False (Some two_hosts) start
     = deliver False
         (invoke_and_await preload_accepted planner_url
            (EXECUTE_BATCH (batch_exec_factory 42 alice_req mpi_job 1)) 2
            \<lparr>sent = 1,
             trace = [Post planner_url
                        (PRELOAD_SCHEDULING_DECISION (pinned 42 alice_req mpi_job two_hosts))]\<rparr>)
   \<and> invoke_wasm preload_accepted 42 planner_url mpi_job 3 None False (Some two_hosts) start
     = Some (Inl IndexError, start)"
proof -
  have h: "resolve_req_dict None mpi_job = Inr alice_req"
    by (simp add: resolve_req_dict_def default_req_dict_def mpi_job_def alice_req_def)
  have e: "expected_num_messages mpi_job k = 2" for k
    by (simp add: expected_num_messages_def mpi_job_def)
  have ok200: "status_code (preload_accepted (sent start)
                 (PRELOAD_SCHEDULING_DECISION (pinned 42 alice_req mpi_job two_hosts))) = 200"
    by (simp add: preload_accepted_def scripted_def start_def)
  note short = placement_preload [where env = preload_accepted and w = start and n = 1
      and hosts = "[''10.0.0.1'']" and gid = 42 and url = planner_url and dict_out = False, OF h]
  note fit = placement_preload [where env = preload_accepted and w = start and n = 1
      and hosts = two_hosts and gid = 42 and url = planner_url and dict_out = False, OF h]
  note long = placement_preload [where env = preload_accepted and w = start and n = 3
      and hosts = two_hosts and gid = 42 and url = planner_url and dict_out = False, OF h]
  have a: "invoke_wasm preload_accepted 42 planner_url mpi_job 1 None False
             (Some [''10.0.0.1'']) start = Some (Inl (AssertionError []), start)"
    using short by (simp add: e)
  have l2: "length two_hosts = 2" by (simp add: two_hosts_def)
  have b: "preload_request mpi_job (batch_exec_factory 42 alice_req mpi_job 1) 2 two_hosts
             = Inr (pinned 42 alice_req mpi_job two_hosts)
       \<and> length (messages (pinned 42 alice_req mpi_job two_hosts)) = 2
       \<and> groupIdx (messages (pinned 42 alice_req mpi_job two_hosts) ! 1) = 1
       \<and> executedHost (messages (pinned 42 alice_req mpi_job two_hosts) ! 1) = ''10.0.0.2''
       \<and> invoke_wasm preload_accepted 42 planner_url mpi_job 1 None False (Some two_hosts) start
         = deliver False
             (invoke_and_await preload_accepted planner_url
                (EXECUTE_BATCH (batch_exec_factory 42 alice_req mpi_job 1)) 2
                \<lparr>sent = 1,
                 trace = [Post planner_url
                            (PRELOAD_SCHEDULING_DECISION (pinned 42 alice_req mpi_job two_hosts))]\<rparr>)"
    using fit ok200 by (simp add: e l2) (simp add: two_hosts_def start_def)
  have c: "invoke_wasm preload_accepted 42 planner_url mpi_job 3 None False (Some two_hosts) start
             = Some (Inl IndexError, start)"
    using long by (simp add: e l2)
  from a b c show ?thesis by simp
qed

text \<open>
  C6. The claim: with a host list whose length is the expected count (the template's
  \<open>mpi_world_size\<close> when present, \<open>num_messages\<close> otherwise), the request is padded to
  that count and the preload sent before the submission has \<open>groupIdx = i\<close> and
  \<open>executedHost = host_list[i]\<close> in message \<open>i\<close>, for every \<open>i\<close> below the length of
  the host list. With \<open>mpi_world_size = 2\<close>, \<open>num_messages = 3\<close> and two hosts the
  expected count is 2 and the assertion on the host list passes; the request has three
  messages, the padding loop adds none, and the assignment loop, which runs over the
  messages of the request, raises \<open>IndexError\<close> at \<open>host_list[2]\<close>: no preload and no
  submission is sent. A list of three hosts, one per message as the docstring of
  \<open>invoke_wasm\<close> asks, fails the assertion, so that no host list is accepted for this
  call.
\<close>

theorem preload_raises_on_longer_request:
  "expected_num_messages mpi_job 3 = 2
   \<and> int (length two_hosts) = expected_num_messages mpi_job 3
   \<and> invoke_wasm env 42 planner_url mpi_job 3 None False (Some two_hosts) w
       = Some (Inl IndexError, w)
   \<and> invoke_wasm env 42 planner_url mpi_job 3 None False
         (Some [''10.0.0.1'', ''10.0.0.2'', ''10.0.0.3'']) w
       = Some (Inl (AssertionError []), w)"
proof -
  have r: "resolve_req_dict None mpi_job = Inr alice_req"
    by (simp add: resolve_req_dict_def default_req_dict_def mpi_job_def alice_req_def)
  have e: "expected_num_messages mpi_job 3 = 2"
    by (simp add: expected_num_messages_def mpi_job_def)
  have l: "int (length two_hosts) = 2"
    by (simp add: two_hosts_def)
  have longer: "preload_request mpi_job (batch_exec_factory 42 alice_req mpi_job 3) 2 two_hosts
                  = Inl IndexError"
    by (rule preload_request_IndexError) (simp_all add: l)
  have three: "preload_request mpi_job (batch_exec_factory 42 alice_req mpi_job 3) 2
                 [''10.0.0.1'', ''10.0.0.2'', ''10.0.0.3''] = Inl (AssertionError [])"
    by (simp add: preload_request_def)
  show ?thesis
    by (simp add: invoke_wasm_def r e l longer three)
qed

section \<open>A rejected preload\<close>

text \<open>
  C9. When the preload is answered with a status code other than 200, \<open>invoke_wasm\<close>
  raises \<open>RuntimeError\<close> at once: the preload is the only POST of the call, it is not
  repeated, and the submission is not sent.
\<close>

theorem rejected_preload_is_fatal:
  assumes "resolve_req_dict req_dict md = Inr rd"
      and "preload_request md (batch_exec_factory gid rd md n) (expected_num_messages md n) hosts
             = Inr preq"
      and "status_code (env (sent w) (PRELOAD_SCHEDULING_DECISION preq)) \<noteq> 200"
  shows "invoke_wasm env gid url md n req_dict dict_out (Some hosts) w
           = Some (Inl (RuntimeError ''Error preloading scheduling decision!''),
                   \<lparr>sent = Suc (sent w),
                    trace = trace w @
                      [Post url (PRELOAD_SCHEDULING_DECISION preq),
                       Print_preload_error
                         (status_code (env (sent w) (PRELOAD_SCHEDULING_DECISION preq)))
                         (resp_text (env (sent w) (PRELOAD_SCHEDULING_DECISION preq)))]\<rparr>)"
  using assms by (simp add: invoke_wasm_def post_def print_line_def world_update)

theorem rejected_preload_is_fatal_witness:
  "invoke_wasm failing_endpoint 42 planner_url alice_work 2 None False (Some two_hosts) start
     = Some (Inl (RuntimeError ''Error preloading scheduling decision!''),
             \<lparr>sent = 1,
              trace =
                [Post planner_url
                   (PRELOAD_SCHEDULING_DECISION (pinned 42 alice_req alice_work two_hosts)),
                 Print_preload_error 500 (Plain ''Internal Server Error'')]\<rparr>)"
proof -
  have h1: "resolve_req_dict None alice_work = Inr alice_req"
    by (simp add: resolve_req_dict_def default_req_dict_def alice_work_def alice_req_def)
  have e: "expected_num_messages alice_work 2 = 2"
    by (simp add: expected_num_messages_def alice_work_def)
  have h2: "preload_request alice_work (batch_exec_factory 42 alice_req alice_work 2)
              (expected_num_messages alice_work 2) two_hosts
              = Inr (pinned 42 alice_req alice_work two_hosts)"
    unfolding e by (rule preload_request_ok) (simp_all add: two_hosts_def)
  have h3: "status_code (failing_endpoint (sent start)
              (PRELOAD_SCHEDULING_DECISION (pinned 42 alice_req alice_work two_hosts))) \<noteq> 200"
    by (simp add: failing_endpoint_def)
  show ?thesis
    using rejected_preload_is_fatal [where env = failing_endpoint and w = start
        and url = planner_url and dict_out = False, OF h1 h2 h3]
    by (simp add: start_def failing_endpoint_def)
qed

section \<open>The invariant of a built request\<close>



end
